theory Spec2Isabelle
  imports Complex_Main "HOL-Library.Word"
begin

section \<open>JavaScript values\<close>

text \<open>
  The server is one JavaScript file (\<^verbatim>\<open>src/server.js\<close>): an Express handler for
  \<^verbatim>\<open>GET /connections\<close> that calls five remote procedures and reshapes their JSON.
  This section models the values the handler computes with.

  A JavaScript string is a sequence of UTF-16 code units; \<open>js\<close> turns an ASCII literal
  into one.
\<close>

type_synonym jschar = "16 word"
type_synonym jsstring = "jschar list"

definition js :: "string \<Rightarrow> jsstring" where
  "js s = map of_char s"

text \<open>
  A JavaScript number is an IEEE-754 double: a finite value, which is a rational
  number, one of two zeros, \<open>NaN\<close>, or one of two infinities. \<open>Fin q\<close> is the finite
  number of value \<open>q\<close> (\<open>Fin 0\<close> is the positive zero) and \<open>NegZero\<close> is the negative
  zero. Division and \<^verbatim>\<open>toFixed\<close> below round their results to the nearest double, so the
  finite numbers they return are doubles (\<open>is_double\<close>). The numbers inside a JSON value
  are doubles as they come in: the decimal literal \<open>q\<close> of a JSON text is read as the
  number \<open>to_double q\<close>, which is \<open>Fin q\<close> when \<open>q\<close> is a double, as every integer below
  \<open>2\<^sup>5\<^sup>3\<close> in magnitude is.
\<close>

datatype jsnum = Fin rat | NegZero | NaN | PInf | NInf

text \<open>
  The values of JSON, and \<open>undefined\<close>. An object is its list of own properties in
  order; a lookup takes the first binding of a name (a parsed JSON object has each name
  once).
\<close>

datatype jsval =
    JUndefined
  | JNull
  | JBool bool
  | JNum jsnum
  | JStr jsstring
  | JArr "jsval list"
  | JObj "(jsstring \<times> jsval) list"

text \<open>
  What the code throws. \<open>Error m\<close> is the program's own \<^verbatim>\<open>throw new Error(m)\<close>;
  \<open>Rejected m\<close> is a promise of the HTTP library rejected with message \<open>m\<close>;
  \<open>TypeError\<close> and \<open>RangeError\<close> are raised by the engine, at the kind of fault
  recorded.
\<close>

datatype tfault =
    ReadOfNullish jsstring   \<comment> \<open>a property read on \<open>undefined\<close> or \<open>null\<close>\<close>
  | NotAFunction jsstring    \<comment> \<open>a call of a property that is not a function\<close>
  | NoPrimitive              \<comment> \<open>an object that converts to no primitive value\<close>

datatype jserror =
    Error jsstring
  | Rejected jsstring
  | TypeError tfault
  | RangeError

text \<open>
  The parts of the engine that the model leaves open. \<open>StringToNumber\<close> and the
  printing of a number that is not a small integer depend on the double format; the
  wording of an engine error depends on the engine. Every function below takes the
  runtime as a parameter, and every theorem holds for every runtime.
\<close>

record runtime =
  StringToNumber :: "jsstring \<Rightarrow> jsnum"
  FractionToString :: "rat \<Rightarrow> jsstring"
  engine_message :: "tfault option \<Rightarrow> jsstring"

text \<open>
  A computation that may throw returns \<open>Inl\<close> of the error or \<open>Inr\<close> of its value;
  \<open>bindE m f\<close> runs \<open>f\<close> on the value of \<open>m\<close> unless \<open>m\<close> threw.
\<close>

definition bindE :: "'e + 'a \<Rightarrow> ('a \<Rightarrow> 'e + 'b) \<Rightarrow> 'e + 'b" where
  "bindE m f = (case m of Inl e \<Rightarrow> Inl e | Inr x \<Rightarrow> f x)"

subsection \<open>Truthiness and \<^verbatim>\<open>||\<close>\<close>

fun truthy :: "jsval \<Rightarrow> bool" where
  "truthy JUndefined = False"
| "truthy JNull = False"
| "truthy (JBool b) = b"
| "truthy (JNum (Fin q)) = (q \<noteq> 0)"
| "truthy (JNum NegZero) = False"
| "truthy (JNum NaN) = False"
| "truthy (JNum PInf) = True"
| "truthy (JNum NInf) = True"
| "truthy (JStr s) = (s \<noteq> [])"
| "truthy (JArr xs) = True"
| "truthy (JObj kvs) = True"

definition js_or :: "jsval \<Rightarrow> jsval \<Rightarrow> jsval" where
  "js_or a b = (if truthy a then a else b)"

subsection \<open>Property reads\<close>

text \<open>
  \<open>get_prop v k\<close> is \<^verbatim>\<open>v.k\<close> for the names the program reads from data:
  \<^verbatim>\<open>d\<close>, \<^verbatim>\<open>oItem\<close>, \<^verbatim>\<open>iID\<close>, \<^verbatim>\<open>aoTrains\<close>, \<^verbatim>\<open>length\<close> and so on.
  None of them is inherited from a prototype except \<^verbatim>\<open>length\<close> of an array or a
  string. A read on \<open>undefined\<close> or \<open>null\<close> throws.
\<close>

fun lookup :: "(jsstring \<times> jsval) list \<Rightarrow> jsstring \<Rightarrow> jsval" where
  "lookup [] k = JUndefined"
| "lookup ((k', v) # kvs) k = (if k' = k then v else lookup kvs k)"

fun get_prop :: "jsval \<Rightarrow> jsstring \<Rightarrow> jserror + jsval" where
  "get_prop JUndefined k = Inl (TypeError (ReadOfNullish k))"
| "get_prop JNull k = Inl (TypeError (ReadOfNullish k))"
| "get_prop (JObj kvs) k = Inr (lookup kvs k)"
| "get_prop (JArr xs) k =
     Inr (if k = js ''length'' then JNum (Fin (of_nat (length xs))) else JUndefined)"
| "get_prop (JStr s) k =
     Inr (if k = js ''length'' then JNum (Fin (of_nat (length s))) else JUndefined)"
| "get_prop (JBool b) k = Inr JUndefined"
| "get_prop (JNum n) k = Inr JUndefined"

text \<open>\<^verbatim>\<open>v?.k\<close>: \<open>undefined\<close> when \<open>v\<close> is \<open>undefined\<close> or \<open>null\<close>.\<close>

fun opt_get :: "jsval \<Rightarrow> jsstring \<Rightarrow> jsval" where
  "opt_get JUndefined k = JUndefined"
| "opt_get JNull k = JUndefined"
| "opt_get v k = (case get_prop v k of Inl e \<Rightarrow> JUndefined | Inr x \<Rightarrow> x)"

text \<open>\<^verbatim>\<open>v[0]\<close> on a value that is not \<open>undefined\<close> or \<open>null\<close>.\<close>

fun first_elem :: "jsval \<Rightarrow> jsval" where
  "first_elem (JArr []) = JUndefined"
| "first_elem (JArr (x # xs)) = x"
| "first_elem (JStr []) = JUndefined"
| "first_elem (JStr (c # cs)) = JStr [c]"
| "first_elem (JObj kvs) = lookup kvs (js ''0'')"
| "first_elem v = JUndefined"

subsection \<open>Conversions\<close>

definition digit :: "nat \<Rightarrow> jschar" where
  "digit d = of_nat (48 + d)"

fun decimal :: "nat \<Rightarrow> jsstring" where
  "decimal n = (if n < 10 then [digit n] else decimal (n div 10) @ [digit (n mod 10)])"

declare decimal.simps [simp del]

text \<open>
  \<^verbatim>\<open>Number::toString\<close>. An integer below \<open>2\<^sup>5\<^sup>3\<close> in magnitude prints as its decimal
  digits and a zero of either sign as \<^verbatim>\<open>0\<close>; the digits of any other finite number (the
  shortest that read back as the same double) are the runtime's.
\<close>

definition NumberToString :: "runtime \<Rightarrow> jsnum \<Rightarrow> jsstring" where
  "NumberToString rt n =
     (case n of
        NaN \<Rightarrow> js ''NaN''
      | PInf \<Rightarrow> js ''Infinity''
      | NInf \<Rightarrow> js ''-Infinity''
      | NegZero \<Rightarrow> js ''0''
      | Fin q \<Rightarrow>
          if of_int \<lfloor>q\<rfloor> = q \<and> \<bar>q\<bar> < 2 ^ 53
          then (if q < 0 then js ''-'' else []) @ decimal (nat \<bar>\<lfloor>q\<rfloor>\<bar>)
          else FractionToString rt q)"

definition has_own :: "(jsstring \<times> jsval) list \<Rightarrow> jsstring \<Rightarrow> bool" where
  "has_own kvs k = (k \<in> set (map fst kvs))"

text \<open>
  \<open>ToString\<close> of a value, and \<^verbatim>\<open>Array.prototype.join\<close>, which prints \<open>undefined\<close> and
  \<open>null\<close> as the empty string. An array converts through \<^verbatim>\<open>join(',')\<close>. A plain
  object converts through the inherited \<^verbatim>\<open>toString\<close>; when it has an own property
  of that name (data, so not callable) no method returns a primitive and the
  conversion throws.
\<close>

fun ToString :: "runtime \<Rightarrow> jsval \<Rightarrow> jserror + jsstring"
  and join :: "runtime \<Rightarrow> jsstring \<Rightarrow> jsval list \<Rightarrow> jserror + jsstring" where
  "ToString rt JUndefined = Inr (js ''undefined'')"
| "ToString rt JNull = Inr (js ''null'')"
| "ToString rt (JBool b) = Inr (if b then js ''true'' else js ''false'')"
| "ToString rt (JNum n) = Inr (NumberToString rt n)"
| "ToString rt (JStr s) = Inr s"
| "ToString rt (JArr xs) = join rt (js '','') xs"
| "ToString rt (JObj kvs) =
     (if has_own kvs (js ''toString'') then Inl (TypeError NoPrimitive)
      else Inr (js ''[object Object]''))"
| "join rt sep [] = Inr []"
| "join rt sep (x # xs) =
     (case (if x = JUndefined \<or> x = JNull then Inr [] else ToString rt x) of
        Inl e \<Rightarrow> Inl e
      | Inr s \<Rightarrow>
          if xs = [] then Inr s
          else (case join rt sep xs of Inl e \<Rightarrow> Inl e | Inr t \<Rightarrow> Inr (s @ sep @ t)))"

text \<open>\<open>ToNumber\<close>, which \<^verbatim>\<open>Number(v)\<close> and the arithmetic operators apply.\<close>

fun ToNumber :: "runtime \<Rightarrow> jsval \<Rightarrow> jserror + jsnum" where
  "ToNumber rt JUndefined = Inr NaN"
| "ToNumber rt JNull = Inr (Fin 0)"
| "ToNumber rt (JBool b) = Inr (Fin (if b then 1 else 0))"
| "ToNumber rt (JNum n) = Inr n"
| "ToNumber rt (JStr s) = Inr (StringToNumber rt s)"
| "ToNumber rt v =
     (case ToString rt v of Inl e \<Rightarrow> Inl e | Inr s \<Rightarrow> Inr (StringToNumber rt s))"

subsection \<open>Doubles\<close>

text \<open>
  Rounding to the nearest double, ties to even (IEEE 754, binary64). \<open>bits n\<close> is the
  number of binary digits of \<open>n > 0\<close>, and \<open>ilog2 a\<close> is the integer \<open>e\<close> with
  \<open>2\<^sup>e \<le> a < 2\<^sup>e\<^sup>+\<^sup>1\<close> for a rational \<open>a > 0\<close> (lemmas \<open>ilog2_bounds\<close> and
  \<open>ilog2_unique\<close>).
\<close>

function bits :: "int \<Rightarrow> int" where
  "bits n = (if n \<le> 0 then 0 else 1 + bits (n div 2))"
  by pat_completeness auto

termination
  by (relation "measure nat") auto

declare bits.simps [simp del]

definition ilog2 :: "rat \<Rightarrow> int" where
  "ilog2 a = (if 1 \<le> a then bits \<lfloor>a\<rfloor> - 1 else - bits (\<lceil>1 / a\<rceil> - 1))"

text \<open>\<open>rne y\<close> is the integer nearest to \<open>y\<close>, the even one of two.\<close>

definition rne :: "rat \<Rightarrow> int" where
  "rne y = (let f = \<lfloor>y\<rfloor>; r = y - of_int f
            in if r < 1 / 2 then f else if 1 / 2 < r then f + 1
               else if even f then f else f + 1)"

text \<open>
  The doubles around \<open>a > 0\<close> are the multiples of \<open>2\<^sup>q\<close> for \<open>q = ilog2 a - 52\<close>, and of
  \<open>2\<^sup>-\<^sup>1\<^sup>0\<^sup>7\<^sup>4\<close> in the subnormal range; \<open>round_pos a\<close> is the nearest of them.
\<close>

definition round_pos :: "rat \<Rightarrow> rat" where
  "round_pos a = (let q = max (ilog2 a - 52) (- 1074)
                  in of_int (rne (a / 2 powi q)) * 2 powi q)"

text \<open>
  The double for a magnitude and a sign. A magnitude that rounds to nothing gives a zero
  of that sign, and one that rounds to \<open>2\<^sup>1\<^sup>0\<^sup>2\<^sup>4\<close> or more an infinity (the largest double
  is \<open>2\<^sup>1\<^sup>0\<^sup>2\<^sup>4 - 2\<^sup>9\<^sup>7\<^sup>1\<close>). \<open>to_double x\<close> is the double nearest to the rational \<open>x\<close>.
\<close>

definition zero_of :: "bool \<Rightarrow> jsnum" where
  "zero_of negative = (if negative then NegZero else Fin 0)"

definition inf_of :: "bool \<Rightarrow> jsnum" where
  "inf_of negative = (if negative then NInf else PInf)"

definition double_of_mag :: "bool \<Rightarrow> rat \<Rightarrow> jsnum" where
  "double_of_mag negative a =
     (let d = round_pos a
      in if d = 0 then zero_of negative
         else if 2 ^ 1024 \<le> d then inf_of negative
         else Fin (if negative then - d else d))"

definition to_double :: "rat \<Rightarrow> jsnum" where
  "to_double x = double_of_mag (x < 0) \<bar>x\<bar>"

text \<open>
  The finite values that are doubles are the fixed points of the rounding below
  \<open>2\<^sup>1\<^sup>0\<^sup>2\<^sup>4\<close>; every number that the division returns is one (lemma
  \<open>double_valued_num_div\<close>).
\<close>

definition is_double :: "rat \<Rightarrow> bool" where
  "is_double d = (round_pos \<bar>d\<bar> = \<bar>d\<bar> \<and> \<bar>d\<bar> < 2 ^ 1024)"

fun double_valued :: "jsnum \<Rightarrow> bool" where
  "double_valued (Fin d) = is_double d"
| "double_valued n = True"

subsection \<open>Arithmetic\<close>

text \<open>
  \<^verbatim>\<open>x / y\<close> on numbers (\<open>Number::divide\<close>): \<open>NaN\<close> when an operand is \<open>NaN\<close>, for an
  infinity by an infinity and for a zero by a zero; otherwise a result of the sign of
  the operands' signs, which is an infinity for an infinity or a division by a zero, a
  zero for a division by an infinity, and else the double nearest to the exact
  quotient.
\<close>

fun neg :: "jsnum \<Rightarrow> bool" where
  "neg (Fin a) = (a < 0)"
| "neg NegZero = True"
| "neg NInf = True"
| "neg n = False"

fun is_zero :: "jsnum \<Rightarrow> bool" where
  "is_zero (Fin a) = (a = 0)"
| "is_zero NegZero = True"
| "is_zero n = False"

fun is_inf :: "jsnum \<Rightarrow> bool" where
  "is_inf PInf = True"
| "is_inf NInf = True"
| "is_inf n = False"

fun magnitude :: "jsnum \<Rightarrow> rat" where
  "magnitude (Fin a) = \<bar>a\<bar>"
| "magnitude n = 0"

definition num_div :: "jsnum \<Rightarrow> jsnum \<Rightarrow> jsnum" where
  "num_div x y =
     (let negative = (neg x \<noteq> neg y)
      in if x = NaN \<or> y = NaN then NaN
         else if is_inf x then (if is_inf y then NaN else inf_of negative)
         else if is_inf y then zero_of negative
         else if is_zero y then (if is_zero x then NaN else inf_of negative)
         else double_of_mag negative (magnitude x / magnitude y))"

text \<open>
  \<^verbatim>\<open>x - y\<close> on numbers. The program subtracts only 1 from the length of an array, and a
  difference of integers below \<open>2\<^sup>5\<^sup>3\<close> in magnitude is exact in doubles; \<open>num_sub\<close> is
  written for those operands and returns the exact difference of two finite values.
\<close>

fun num_sub :: "jsnum \<Rightarrow> jsnum \<Rightarrow> jsnum" where
  "num_sub NaN y = NaN"
| "num_sub x NaN = NaN"
| "num_sub (Fin a) (Fin b) = Fin (a - b)"
| "num_sub (Fin a) NegZero = Fin a"
| "num_sub NegZero (Fin b) = (if b = 0 then NegZero else Fin (- b))"
| "num_sub NegZero NegZero = Fin 0"
| "num_sub PInf PInf = NaN"
| "num_sub NInf NInf = NaN"
| "num_sub PInf y = PInf"
| "num_sub NInf y = NInf"
| "num_sub x PInf = NInf"
| "num_sub x NInf = PInf"

text \<open>\<^verbatim>\<open>a / b\<close> and \<^verbatim>\<open>a - b\<close> on values: both operands go through \<open>ToNumber\<close>, left first.\<close>

definition js_div :: "runtime \<Rightarrow> jsval \<Rightarrow> jsval \<Rightarrow> jserror + jsnum" where
  "js_div rt a b =
     bindE (ToNumber rt a) (\<lambda>x. bindE (ToNumber rt b) (\<lambda>y. Inr (num_div x y)))"

definition js_sub :: "runtime \<Rightarrow> jsval \<Rightarrow> jsval \<Rightarrow> jserror + jsnum" where
  "js_sub rt a b =
     bindE (ToNumber rt a) (\<lambda>x. bindE (ToNumber rt b) (\<lambda>y. Inr (num_sub x y)))"

text \<open>
  \<^verbatim>\<open>Number(x.toFixed(2))\<close>. For a finite \<open>x\<close> below \<open>10\<^sup>2\<^sup>1\<close> in magnitude, \<^verbatim>\<open>toFixed(2)\<close>
  prints the digits of the integer \<open>n\<close> for which \<open>n / 100\<close> is nearest to the exact
  value of \<open>\<bar>x\<bar>\<close>, the larger one of two, with a point before the last two digits and a
  minus sign in front when \<open>x < 0\<close>; \<open>printed2\<close> is the value \<open>n / 100\<close> of the digits.
  \<^verbatim>\<open>Number\<close> reads them back: the double nearest to \<open>n / 100\<close> with the sign printed (the
  negative zero for \<^verbatim>\<open>-0.00\<close>). From \<open>10\<^sup>2\<^sup>1\<close> on \<^verbatim>\<open>toFixed\<close> prints the number as
  \<^verbatim>\<open>toString\<close> does, which \<^verbatim>\<open>Number\<close> reads back unchanged. The negative zero prints as
  \<^verbatim>\<open>0.00\<close>; \<open>NaN\<close> and the infinities print as their names and read back as themselves.
\<close>

definition printed2 :: "rat \<Rightarrow> rat" where
  "printed2 a = of_int \<lfloor>a * 100 + 1 / 2\<rfloor> / 100"

fun toFixed2 :: "jsnum \<Rightarrow> jsnum" where
  "toFixed2 (Fin x) =
     (if 10 ^ 21 \<le> \<bar>x\<bar> then Fin x else double_of_mag (x < 0) (printed2 \<bar>x\<bar>))"
| "toFixed2 NegZero = Fin 0"
| "toFixed2 n = n"

section \<open>Dates\<close>

text \<open>
  \<^verbatim>\<open>new Date(ms).toISOString()\<close> for a time value \<open>ms \<ge> 0\<close>, after the
  definitions of ECMAScript: \<open>Day\<close>, \<open>DayFromYear\<close>, \<open>YearFromTime\<close> (the largest year
  that starts on or before the day), \<open>MonthFromTime\<close> and \<open>DateFromTime\<close>.
  \<open>YearFromTime\<close> searches upwards from a year that is not too late; that it ends at
  the year ECMAScript defines is lemma \<open>YearFromTime_largest\<close> below.
\<close>

definition msPerDay :: nat where
  "msPerDay = 86400000"

definition DayFromYear :: "nat \<Rightarrow> int" where
  "DayFromYear y =
     365 * (int y - 1970) + (int y - 1969) div 4 - (int y - 1901) div 100
       + (int y - 1601) div 400"

definition InLeapYear :: "nat \<Rightarrow> bool" where
  "InLeapYear y = (y mod 4 = 0 \<and> (y mod 100 \<noteq> 0 \<or> y mod 400 = 0))"

function year_search :: "nat \<Rightarrow> nat \<Rightarrow> nat" where
  "year_search day y =
     (if DayFromYear (y + 1) \<le> int day then year_search day (y + 1) else y)"
  by pat_completeness auto

lemma DayFromYear_Suc: "DayFromYear y < DayFromYear (Suc y)"
proof -
  define x where "x = int y"
  have a: "(x - 1969) div 4 \<le> (x - 1968) div 4"
    by (rule zdiv_mono1) simp_all
  have "(x - 1900) div 100 \<le> (x - 1901 + 1 * 100) div 100"
    by (rule zdiv_mono1) simp_all
  also have "\<dots> = (x - 1901) div 100 + 1"
    by (simp only: div_mult_self1)
  finally have b: "(x - 1900) div 100 \<le> (x - 1901) div 100 + 1" .
  have c: "(x - 1601) div 400 \<le> (x - 1600) div 400"
    by (rule zdiv_mono1) simp_all
  have "365 * (x - 1970) + (x - 1969) div 4 - (x - 1901) div 100 + (x - 1601) div 400
      < 365 * (x - 1969) + (x - 1968) div 4 - (x - 1900) div 100 + (x - 1600) div 400"
  proof -
    have "a0 \<le> a1 \<Longrightarrow> b1 \<le> b0 + 1 \<Longrightarrow> c0 \<le> c1 \<Longrightarrow>
        365 * (x - 1970) + a0 - b0 + c0 < 365 * (x - 1969) + a1 - b1 + c1"
      for a0 a1 b0 b1 c0 c1 :: int
      by simp
    from this [OF a b c] show ?thesis .
  qed
  then show ?thesis
    by (simp add: DayFromYear_def x_def)
qed

termination year_search
proof (relation "measure (\<lambda>(day, y). nat (int day + 1 - DayFromYear (y + 1)))")
  show "wf (measure (\<lambda>(day, y). nat (int day + 1 - DayFromYear (y + 1))))"
    by simp
next
  fix day y :: nat
  assume "DayFromYear (y + 1) \<le> int day"
  moreover have "DayFromYear (Suc y) < DayFromYear (Suc (Suc y))"
    by (rule DayFromYear_Suc)
  ultimately show "((day, y + 1), (day, y))
      \<in> measure (\<lambda>(day, y). nat (int day + 1 - DayFromYear (y + 1)))"
    by simp
qed

declare year_search.simps [simp del]

definition YearFromTime :: "nat \<Rightarrow> nat" where
  "YearFromTime t = year_search (t div msPerDay) (1970 + (t div msPerDay) div 367)"

definition month_lengths :: "bool \<Rightarrow> nat list" where
  "month_lengths leap = [31, if leap then 29 else 28, 31, 30, 31, 30, 31, 31, 30, 31, 30, 31]"

text \<open>
  \<open>month_day lens m d\<close>: the month (from 0) and the day in it (from 0) of day \<open>d\<close> of
  the year, counted from month \<open>m\<close> whose length heads \<open>lens\<close>.
\<close>

fun month_day :: "nat list \<Rightarrow> nat \<Rightarrow> nat \<Rightarrow> nat \<times> nat" where
  "month_day [] m d = (m, d)"
| "month_day (len # lens) m d =
     (if d < len then (m, d) else month_day lens (Suc m) (d - len))"

text \<open>\<open>pad k n\<close>: the last \<open>k\<close> decimal digits of \<open>n\<close>, zero-padded.\<close>

fun pad :: "nat \<Rightarrow> nat \<Rightarrow> jsstring" where
  "pad 0 n = []"
| "pad (Suc k) n = pad k (n div 10) @ [digit (n mod 10)]"

text \<open>
  \<^verbatim>\<open>toISOString\<close> of a valid date: four digits of year from 0 to 9999, a sign and six
  digits beyond.
\<close>

definition toISOString :: "nat \<Rightarrow> jsstring" where
  "toISOString t =
     (let day = t div msPerDay;
          y = YearFromTime t;
          md = month_day (month_lengths (InLeapYear y)) 0 (day - nat (DayFromYear y));
          ms = t mod msPerDay
      in (if y \<le> 9999 then pad 4 y else js ''+'' @ pad 6 y)
         @ js ''-'' @ pad 2 (Suc (fst md)) @ js ''-'' @ pad 2 (Suc (snd md))
         @ js ''T'' @ pad 2 (ms div 3600000) @ js '':'' @ pad 2 (ms div 60000 mod 60)
         @ js '':'' @ pad 2 (ms div 1000 mod 60) @ js ''.'' @ pad 3 (ms mod 1000)
         @ js ''Z'')"

subsection \<open>\<^verbatim>\<open>parseDate\<close> (lines 140 to 143)\<close>

text \<open>
  \<^verbatim>\<open>
  function parseDate(raw) {
    const ms = parseInt(raw.replace(/\D/g, ''), 10);
    return new Date(ms).toISOString();
  }
  \<close>
  \<^verbatim>\<open>\D\<close> matches every code unit but the ten digits, so what reaches
  \<^verbatim>\<open>parseInt\<close> is a string of digits: a natural number, or \<open>NaN\<close> (here \<open>None\<close>) when
  no digit is left. \<^verbatim>\<open>new Date\<close> keeps a time value up to 8.64e15 and makes any other
  an invalid date, on which \<^verbatim>\<open>toISOString\<close> throws a \<open>RangeError\<close>. Every natural
  number up to that bound is a double, and a larger one stays larger when rounded to a
  double, so the exact value decides as the double does.
\<close>

definition is_digit :: "jschar \<Rightarrow> bool" where
  "is_digit c = (48 \<le> c \<and> c \<le> 57)"

definition parseInt_digits :: "jsstring \<Rightarrow> nat option" where
  "parseInt_digits ds =
     (if ds = [] then None else Some (foldl (\<lambda>acc c. 10 * acc + (unat c - 48)) 0 ds))"

definition Date_toISOString :: "nat option \<Rightarrow> jserror + jsstring" where
  "Date_toISOString ms =
     (case ms of
        None \<Rightarrow> Inl RangeError
      | Some t \<Rightarrow> if t \<le> 8640000000000000 then Inr (toISOString t) else Inl RangeError)"

fun parseDate :: "jsval \<Rightarrow> jserror + jsstring" where
  "parseDate (JStr raw) = Date_toISOString (parseInt_digits (filter is_digit raw))"
| "parseDate JUndefined = Inl (TypeError (ReadOfNullish (js ''replace'')))"
| "parseDate JNull = Inl (TypeError (ReadOfNullish (js ''replace'')))"
| "parseDate v = Inl (TypeError (NotAFunction (js ''replace'')))"

section \<open>Remote calls\<close>

text \<open>
  The server talks to the outside through \<^verbatim>\<open>fetch\<close> only. A run of the handler is
  modelled against a \<open>world\<close>: it answers every call, given the calls made before it, and
  the handler returns the list of calls it made next to its result. A response carries
  the body both ways the code may read it: as text (\<^verbatim>\<open>res.text()\<close>) and parsed
  (\<^verbatim>\<open>res.json()\<close>, which rejects with a message when the body is not JSON).
\<close>

datatype call = POST jsstring jsval | GET jsstring

record http_response =
  res_status :: nat
  res_statusText :: jsstring
  res_text :: jsstring
  res_json :: "jsstring + jsval"

datatype fetched = NetworkFailure jsstring | Response http_response

text \<open>
  \<open>second_settles_first\<close> is the one point where timing shows: when both station lookups
  fail, \<^verbatim>\<open>Promise.all\<close> rejects with the error of the lookup that failed first.
\<close>

record world =
  respond :: "call list \<Rightarrow> call \<Rightarrow> fetched"
  second_settles_first :: bool

definition ok :: "http_response \<Rightarrow> bool" where
  "ok res = (200 \<le> res_status res \<and> res_status res \<le> 299)"

subsection \<open>\<^verbatim>\<open>postJSON\<close> (lines 10 to 25)\<close>

text \<open>
  \<^verbatim>\<open>
  async function postJSON(url, body, extraHeaders = {}) {
    const res = await fetch(url, { method: 'POST', headers: {...}, body: JSON.stringify(body) });
    if (!res.ok) {
      const txt = await res.text();
      throw new Error(`POST ${url} -> ${res.status} ${res.statusText}: ${txt}`);
    }
    return res.json();
  }
  \<close>
  The arrow of the message is the code unit U+2192. The call is recorded with the body
  as the caller built it.
\<close>

definition postJSON ::
  "world \<Rightarrow> call list \<Rightarrow> jsstring \<Rightarrow> jsval \<Rightarrow> (jserror + jsval) \<times> call list" where
  "postJSON w tr url body =
     (case respond w tr (POST url body) of
        NetworkFailure m \<Rightarrow> Inl (Rejected m)
      | Response res \<Rightarrow>
          if \<not> ok res
          then Inl (Error (js ''POST '' @ url @ js '' '' @ [8594] @ js '' ''
                 @ decimal (res_status res) @ js '' '' @ res_statusText res @ js '': ''
                 @ res_text res))
          else (case res_json res of Inl m \<Rightarrow> Inl (Rejected m) | Inr j \<Rightarrow> Inr j),
      tr @ [POST url body])"

definition sAppID :: jsval where
  "sAppID = JStr (js ''{A6AB5B3E-8A7E-4E84-9DC8-801561CE886F}'')"

definition sUserDesc :: jsval where
  "sUserDesc = JStr (js
     ''294|34|Google sdk_gphone64_x86_64|^|546338e6-5fa8-8c06-0000-0196a7501a71|en|US|440|1080|2154|2.13.3'')"

definition num :: "int \<Rightarrow> jsval" where
  "num n = JNum (Fin (of_int n))"

subsection \<open>\<^verbatim>\<open>searchStation\<close> (lines 28 to 43)\<close>

text \<open>
  \<^verbatim>\<open>
  const item = (json.d || [])[0]?.oItem;
  if (!item) throw new Error(`Station not found: ${mask}`);
  return { id: item.iListID, name: item.sName };
  \<close>
\<close>

record station =
  st_id :: jsval
  st_name :: jsval

definition station_url :: jsstring where
  "station_url = js ''https://ipws.cdis.cz/IP.svc/SearchGlobalListItemInfoExt''"

definition station_of :: "runtime \<Rightarrow> jsval \<Rightarrow> jsval \<Rightarrow> jserror + station" where
  "station_of rt mask' json =
     bindE (get_prop json (js ''d'')) (\<lambda>d.
       let item = opt_get (first_elem (js_or d (JArr []))) (js ''oItem'')
       in if \<not> truthy item
          then bindE (ToString rt mask') (\<lambda>m. Inl (Error (js ''Station not found: '' @ m)))
          else bindE (get_prop item (js ''iListID'')) (\<lambda>i.
               bindE (get_prop item (js ''sName'')) (\<lambda>n.
               Inr \<lparr>st_id = i, st_name = n\<rparr>)))"

definition station_body :: "jsval \<Rightarrow> jsval" where
  "station_body mask' =
     JObj [(js ''iLang'', num 1), (js ''sMask'', mask'), (js ''iMaxCount'', num 5),
           (js ''sAppID'', sAppID), (js ''sUserDesc'', sUserDesc)]"

definition searchStation ::
  "runtime \<Rightarrow> world \<Rightarrow> call list \<Rightarrow> jsval \<Rightarrow> (jserror + station) \<times> call list" where
  "searchStation rt w tr mask' =
     (let (r, tr') = postJSON w tr station_url (station_body mask')
      in (bindE r (station_of rt mask'), tr'))"

subsection \<open>\<^verbatim>\<open>createSession\<close> (lines 46 to 67)\<close>

text \<open>
  \<^verbatim>\<open>
  const json = await postJSON('https://ipws.cdis.cz/IP.svc/CreateSession', body);
  return json.d?.sSessionID;
  \<close>
\<close>

definition session_url :: jsstring where
  "session_url = js ''https://ipws.cdis.cz/IP.svc/CreateSession''"

definition session_body :: jsval where
  "session_body =
     JObj [(js ''iLang'', num 1), (js ''sAppID'', sAppID), (js ''sUserDesc'', sUserDesc),
           (js ''sUser'', JStr []), (js ''sPwd'', JStr []), (js ''iTokenType'', num 1),
           (js ''oRegisterNotificationsSettings'',
              JObj [(js ''iNotificationMask'', num 2047), (js ''iInitialAdvance'', num 30),
                    (js ''iDelayLimit'', num 5), (js ''iChangeAdvance'', num 5),
                    (js ''iGetOffAdvance'', num 5)])]"

definition createSession :: "world \<Rightarrow> call list \<Rightarrow> (jserror + jsval) \<times> call list" where
  "createSession w tr =
     (let (r, tr') = postJSON w tr session_url session_body
      in (bindE r (\<lambda>json.
            bindE (get_prop json (js ''d'')) (\<lambda>d. Inr (opt_get d (js ''sSessionID'')))),
          tr'))"

subsection \<open>\<^verbatim>\<open>searchJourneys\<close> (lines 70 to 97)\<close>

text \<open>
  \<^verbatim>\<open>
  const d = json.d;
  if (!d) throw new Error('Malformed journey response');
  return { handle: d.iHandle, connections: d.oConnInfo?.aoConnections || [] };
  \<close>
\<close>

record search_result =
  handle :: jsval
  connections :: jsval

definition journey_url :: jsstring where
  "journey_url = js ''https://ipws.cdis.cz/IP.svc/SearchConnectionInfo1''"

definition passengers :: "jsnum \<Rightarrow> jsval" where
  "passengers age =
     JArr [JObj [(js ''oPassenger'', JObj [(js ''iPassengerId'', num 5)]),
                 (js ''iCount'', num 1), (js ''iAge'', JNum age)]]"

definition journey_body ::
  "runtime \<Rightarrow> jsval \<Rightarrow> station \<Rightarrow> station \<Rightarrow> jsnum \<Rightarrow> jsnum \<Rightarrow> jsnum \<Rightarrow> jsval" where
  "journey_body rt sessionID from to depMs travelClass age =
     JObj [(js ''iLang'', num 1), (js ''sSessionID'', sessionID),
           (js ''oFrom'', JObj [(js ''iListID'', st_id from), (js ''sName'', st_name from)]),
           (js ''oTo'', JObj [(js ''iListID'', st_id to), (js ''sName'', st_name to)]),
           (js ''aoVia'', JArr []), (js ''aoChange'', JArr []),
           (js ''dtDateTime'', JStr (js ''/Date('' @ NumberToString rt depMs @ js '')/'')),
           (js ''bIsDep'', JBool True),
           (js ''oConnParms'',
              JObj [(js ''iSearchConnectionFlags'', num 0), (js ''iCarrier'', num 2)]),
           (js ''iMaxObjectsCount'', num 0), (js ''iMaxCount'', num 8),
           (js ''oPriceRequestClass'',
              JObj [(js ''iClass'', JNum travelClass), (js ''bBusiness'', JBool False)]),
           (js ''aoPassengers'', passengers age)]"

definition search_result_of :: "jsval \<Rightarrow> jserror + search_result" where
  "search_result_of json =
     bindE (get_prop json (js ''d'')) (\<lambda>d.
       if \<not> truthy d then Inl (Error (js ''Malformed journey response''))
       else bindE (get_prop d (js ''iHandle'')) (\<lambda>h.
            bindE (get_prop d (js ''oConnInfo'')) (\<lambda>ci.
            Inr \<lparr>handle = h,
                 connections = js_or (opt_get ci (js ''aoConnections'')) (JArr [])\<rparr>)))"

definition searchJourneys ::
  "runtime \<Rightarrow> world \<Rightarrow> call list \<Rightarrow> jsval \<Rightarrow> station \<Rightarrow> station \<Rightarrow> jsnum \<Rightarrow> jsnum \<Rightarrow> jsnum
     \<Rightarrow> (jserror + search_result) \<times> call list" where
  "searchJourneys rt w tr sessionID from to depMs travelClass age =
     (let (r, tr') =
            postJSON w tr journey_url (journey_body rt sessionID from to depMs travelClass age)
      in (bindE r search_result_of, tr'))"

subsection \<open>Mapping over an array\<close>

text \<open>
  \<^verbatim>\<open>xs.map(f)\<close> calls \<open>f\<close> on the elements from left to right and stops at the first
  call that throws. On a value that is not an array the call itself throws.
\<close>

fun mapE :: "('a \<Rightarrow> 'e + 'b) \<Rightarrow> 'a list \<Rightarrow> 'e + 'b list" where
  "mapE f [] = Inr []"
| "mapE f (x # xs) =
     (case f x of
        Inl e \<Rightarrow> Inl e
      | Inr y \<Rightarrow> (case mapE f xs of Inl e \<Rightarrow> Inl e | Inr ys \<Rightarrow> Inr (y # ys)))"

fun array_map :: "(jsval \<Rightarrow> nat \<Rightarrow> jserror + 'b) \<Rightarrow> jsval \<Rightarrow> jserror + 'b list" where
  "array_map f (JArr xs) = mapE (\<lambda>(i, x). f x i) (enumerate 0 xs)"
| "array_map f JUndefined = Inl (TypeError (ReadOfNullish (js ''map'')))"
| "array_map f JNull = Inl (TypeError (ReadOfNullish (js ''map'')))"
| "array_map f v = Inl (TypeError (NotAFunction (js ''map'')))"

subsection \<open>\<^verbatim>\<open>getPrices\<close> (lines 100 to 129)\<close>

text \<open>
  \<^verbatim>\<open>
  const list = json.d || [];
  return list.map(item => {
    const czk = (item.iPrice || 0) / 100.0;
    const eur = czk / czkRate;
    return { czk: Number(czk.toFixed(2)), eur: Number(eur.toFixed(2)) };
  });
  \<close>
\<close>

record price =
  czk :: jsnum
  eur :: jsnum

definition price_url :: jsstring where
  "price_url = js ''https://ipws.cdis.cz/IP.svc/GetConnectionsPrice''"

definition price_body :: "jsval \<Rightarrow> jsval \<Rightarrow> jsval list \<Rightarrow> jsnum \<Rightarrow> jsnum \<Rightarrow> jsval" where
  "price_body sessionID handle' connIDs travelClass age =
     JObj [(js ''iLang'', num 1), (js ''sSessionID'', sessionID), (js ''iHandle'', handle'),
           (js ''aiConnID'', JArr connIDs),
           (js ''oPriceRequest'',
              JObj [(js ''aoPassengers'', passengers age), (js ''iConnHandleThere'', num 0),
                    (js ''iConnIDThere'', num 0),
                    (js ''oClass'',
                       JObj [(js ''iClass'', JNum travelClass), (js ''bBusiness'', JBool False)]),
                    (js ''iDocType'', num 1)]),
           (js ''bStopIfAgeError'', JBool True)]"

definition price_of_item :: "runtime \<Rightarrow> jsval \<Rightarrow> jsval \<Rightarrow> jserror + price" where
  "price_of_item rt czkRate item =
     bindE (get_prop item (js ''iPrice'')) (\<lambda>iPrice.
     bindE (js_div rt (js_or iPrice (num 0)) (num 100)) (\<lambda>c.
     bindE (js_div rt (JNum c) czkRate) (\<lambda>e.
     Inr \<lparr>czk = toFixed2 c, eur = toFixed2 e\<rparr>)))"

definition prices_of :: "runtime \<Rightarrow> jsval \<Rightarrow> jsval \<Rightarrow> jserror + price list" where
  "prices_of rt czkRate json =
     bindE (get_prop json (js ''d'')) (\<lambda>d.
       array_map (\<lambda>item i. price_of_item rt czkRate item) (js_or d (JArr [])))"

definition getPrices ::
  "runtime \<Rightarrow> world \<Rightarrow> call list \<Rightarrow> jsval \<Rightarrow> jsval \<Rightarrow> jsval list \<Rightarrow> jsnum \<Rightarrow> jsnum \<Rightarrow> jsval
     \<Rightarrow> (jserror + price list) \<times> call list" where
  "getPrices rt w tr sessionID handle' connIDs travelClass age czkRate =
     (let (r, tr') =
            postJSON w tr price_url (price_body sessionID handle' connIDs travelClass age)
      in (bindE r (prices_of rt czkRate), tr'))"

subsection \<open>\<^verbatim>\<open>fetchCzkRate\<close> (lines 133 to 137)\<close>

text \<open>
  \<^verbatim>\<open>
  const res = await fetch('https://api.frankfurter.dev/v1/latest?symbols=CZK');
  const json = await res.json();
  return json.rates?.CZK || 1;
  \<close>
\<close>

definition rate_url :: jsstring where
  "rate_url = js ''https://api.frankfurter.dev/v1/latest?symbols=CZK''"

definition rate_of :: "jsval \<Rightarrow> jserror + jsval" where
  "rate_of json =
     bindE (get_prop json (js ''rates'')) (\<lambda>rates.
       Inr (js_or (opt_get rates (js ''CZK'')) (num 1)))"

definition fetchCzkRate :: "world \<Rightarrow> call list \<Rightarrow> (jserror + jsval) \<times> call list" where
  "fetchCzkRate w tr =
     (case respond w tr (GET rate_url) of
        NetworkFailure m \<Rightarrow> Inl (Rejected m)
      | Response res \<Rightarrow>
          (case res_json res of Inl m \<Rightarrow> Inl (Rejected m) | Inr json \<Rightarrow> rate_of json),
      tr @ [GET rate_url])"

section \<open>The endpoint\<close>

subsection \<open>Assembling the output (lines 188 to 203)\<close>

text \<open>
  \<^verbatim>\<open>
  const out = connections.map((c, i) => ({
    id: c.iID,
    priceCzk: prices[i].czk,
    priceEur: prices[i].eur,
    transfers: c.aoTrains.length - 1,
    legs: c.aoTrains.map(leg => ({
      depTime: parseDate(leg.dtDateTime1),
      arrTime: parseDate(leg.dtDateTime2),
      depName: leg.sStationName1,
      destName: leg.sStationName2,
      lineName: [leg.sType, leg.sNum1, leg.sNum2, leg.sNum3]
        .filter(Boolean).join(' ').trim(),
    })),
  }));
  \<close>
  \<^verbatim>\<open>trim\<close> removes the white space and the line terminators of ECMAScript from both
  ends.
\<close>

definition is_space :: "jschar \<Rightarrow> bool" where
  "is_space c =
     (c = 9 \<or> c = 10 \<or> c = 11 \<or> c = 12 \<or> c = 13 \<or> c = 32 \<or> c = 160 \<or> c = 5760
      \<or> (8192 \<le> c \<and> c \<le> 8202) \<or> c = 8232 \<or> c = 8233 \<or> c = 8239 \<or> c = 8287
      \<or> c = 12288 \<or> c = 65279)"

definition trim :: "jsstring \<Rightarrow> jsstring" where
  "trim s = rev (dropWhile is_space (rev (dropWhile is_space s)))"

definition build_lineName :: "runtime \<Rightarrow> jsval list \<Rightarrow> jserror + jsstring" where
  "build_lineName rt tokens =
     bindE (join rt (js '' '') (filter truthy tokens)) (\<lambda>s. Inr (trim s))"

record leg_out =
  depTime :: jsstring
  arrTime :: jsstring
  depName :: jsval
  destName :: jsval
  lineName :: jsstring

record conn_out =
  conn_id :: jsval
  priceCzk :: jsnum
  priceEur :: jsnum
  transfers :: jsnum
  legs :: "leg_out list"

definition assemble_leg :: "runtime \<Rightarrow> jsval \<Rightarrow> jserror + leg_out" where
  "assemble_leg rt leg =
     bindE (get_prop leg (js ''dtDateTime1'')) (\<lambda>t1.
     bindE (parseDate t1) (\<lambda>dep.
     bindE (get_prop leg (js ''dtDateTime2'')) (\<lambda>t2.
     bindE (parseDate t2) (\<lambda>arr.
     bindE (get_prop leg (js ''sStationName1'')) (\<lambda>n1.
     bindE (get_prop leg (js ''sStationName2'')) (\<lambda>n2.
     bindE (get_prop leg (js ''sType'')) (\<lambda>sType.
     bindE (get_prop leg (js ''sNum1'')) (\<lambda>sNum1.
     bindE (get_prop leg (js ''sNum2'')) (\<lambda>sNum2.
     bindE (get_prop leg (js ''sNum3'')) (\<lambda>sNum3.
     bindE (build_lineName rt [sType, sNum1, sNum2, sNum3]) (\<lambda>line.
     Inr \<lparr>depTime = dep, arrTime = arr, depName = n1, destName = n2,
          lineName = line\<rparr>)))))))))))"

text \<open>\<^verbatim>\<open>prices[i]\<close> is \<open>undefined\<close> from the length of \<open>prices\<close> on, and reading its \<^verbatim>\<open>czk\<close> throws.\<close>

definition price_at :: "price list \<Rightarrow> nat \<Rightarrow> jserror + price" where
  "price_at prices i =
     (if i < length prices then Inr (prices ! i)
      else Inl (TypeError (ReadOfNullish (js ''czk''))))"

definition assemble_conn :: "runtime \<Rightarrow> price list \<Rightarrow> jsval \<Rightarrow> nat \<Rightarrow> jserror + conn_out" where
  "assemble_conn rt prices c i =
     bindE (get_prop c (js ''iID'')) (\<lambda>cid.
     bindE (price_at prices i) (\<lambda>p.
     bindE (get_prop c (js ''aoTrains'')) (\<lambda>trains.
     bindE (get_prop trains (js ''length'')) (\<lambda>len.
     bindE (js_sub rt len (num 1)) (\<lambda>t.
     bindE (array_map (\<lambda>leg j. assemble_leg rt leg) trains) (\<lambda>ls.
     Inr \<lparr>conn_id = cid, priceCzk = czk p, priceEur = eur p, transfers = t,
          legs = ls\<rparr>))))))"

definition assemble :: "runtime \<Rightarrow> jsval \<Rightarrow> price list \<Rightarrow> jserror + conn_out list" where
  "assemble rt conns prices = array_map (assemble_conn rt prices) conns"

subsection \<open>The handler of \<^verbatim>\<open>GET /connections\<close> (lines 145 to 210)\<close>

text \<open>
  The query parameters as Express hands them over: \<open>undefined\<close> when absent, else a
  string, or an array or an object when the query string repeats or nests a name.
\<close>

record query =
  q_from :: jsval
  q_to :: jsval
  q_dep :: jsval
  q_age :: jsval
  q_class :: jsval

text \<open>
  A reply is a status and the value handed to \<^verbatim>\<open>res.json\<close>: \<open>ErrorBody m\<close> is the
  object \<^verbatim>\<open>{ error: m }\<close>, \<open>Connections out\<close> the array of records.
\<close>

datatype reply_body = ErrorBody jsstring | Connections "conn_out list"

datatype reply = Reply nat reply_body

definition message :: "runtime \<Rightarrow> jserror \<Rightarrow> jsstring" where
  "message rt err =
     (case err of
        Error m \<Rightarrow> m
      | Rejected m \<Rightarrow> m
      | TypeError f \<Rightarrow> engine_message rt (Some f)
      | RangeError \<Rightarrow> engine_message rt None)"

text \<open>
  Step 1, \<^verbatim>\<open>await Promise.all([searchStation(from), searchStation(to)])\<close>: both
  requests are sent, the first before the second, whatever the first one's answer.
\<close>

definition both_stations ::
  "runtime \<Rightarrow> world \<Rightarrow> call list \<Rightarrow> jsval \<Rightarrow> jsval \<Rightarrow> (jserror + station \<times> station) \<times> call list" where
  "both_stations rt w tr from to =
     (let (r1, tr1) = searchStation rt w tr from;
          (r2, tr2) = searchStation rt w tr1 to
      in (case r1 of
            Inl e1 \<Rightarrow>
              (case r2 of
                 Inl e2 \<Rightarrow> Inl (if second_settles_first w then e2 else e1)
               | Inr toSt \<Rightarrow> Inl e1)
          | Inr fromSt \<Rightarrow>
              (case r2 of Inl e2 \<Rightarrow> Inl e2 | Inr toSt \<Rightarrow> Inr (fromSt, toSt)),
          tr2))"

text \<open>
  Steps 1 to 5: what the handler has when it starts to assemble the output, the
  connections and their prices. \<^verbatim>\<open>Number(age || -1)\<close> is written twice in the source
  and has one value.
\<close>

definition connIDs_of :: "jsval \<Rightarrow> jserror + jsval list" where
  "connIDs_of conns = array_map (\<lambda>c i. get_prop c (js ''iID'')) conns"

definition search_and_price ::
  "runtime \<Rightarrow> world \<Rightarrow> query \<Rightarrow> jsnum \<Rightarrow> (jserror + jsval \<times> price list) \<times> call list" where
  "search_and_price rt w q cls =
     (case both_stations rt w [] (q_from q) (q_to q) of
        (Inl e, tr1) \<Rightarrow> (Inl e, tr1)
      | (Inr (fromSt, toSt), tr1) \<Rightarrow>
     (case createSession w tr1 of
        (Inl e, tr2) \<Rightarrow> (Inl e, tr2)
      | (Inr sessionID, tr2) \<Rightarrow>
     (case ToNumber rt (q_dep q) of
        Inl e \<Rightarrow> (Inl e, tr2)
      | Inr depMs \<Rightarrow>
     (case ToNumber rt (js_or (q_age q) (num (- 1))) of
        Inl e \<Rightarrow> (Inl e, tr2)
      | Inr age \<Rightarrow>
     (case searchJourneys rt w tr2 sessionID fromSt toSt depMs cls age of
        (Inl e, tr3) \<Rightarrow> (Inl e, tr3)
      | (Inr found, tr3) \<Rightarrow>
     (case fetchCzkRate w tr3 of
        (Inl e, tr4) \<Rightarrow> (Inl e, tr4)
      | (Inr czkRate, tr4) \<Rightarrow>
     (case connIDs_of (connections found) of
        Inl e \<Rightarrow> (Inl e, tr4)
      | Inr connIDs \<Rightarrow>
     (case getPrices rt w tr4 sessionID (handle found) connIDs cls age czkRate of
        (Inl e, tr5) \<Rightarrow> (Inl e, tr5)
      | (Inr prices, tr5) \<Rightarrow> (Inr (connections found, prices), tr5)))))))))"

text \<open>
  \<^verbatim>\<open>
  app.get('/connections', async (req, res) => {
    try {
      const { from, to, dep, age } = req.query;
      const cls = Number(req.query['class'] || 2);
      if (!from || !to || !dep) {
        return res.status(400).json({ error: 'Missing from, to, or dep' });
      }
      ...
      res.json(out);
    } catch (err) {
      console.error(err);
      res.status(500).json({ error: err.message });
    }
  });
  \<close>
  The log line is not modelled.
\<close>

definition missing :: "query \<Rightarrow> bool" where
  "missing q = (\<not> truthy (q_from q) \<or> \<not> truthy (q_to q) \<or> \<not> truthy (q_dep q))"

definition failed :: "runtime \<Rightarrow> jserror \<Rightarrow> reply" where
  "failed rt err = Reply 500 (ErrorBody (message rt err))"

definition handler :: "runtime \<Rightarrow> world \<Rightarrow> query \<Rightarrow> reply \<times> call list" where
  "handler rt w q =
     (case ToNumber rt (js_or (q_class q) (num 2)) of
        Inl e \<Rightarrow> (failed rt e, [])
      | Inr cls \<Rightarrow>
          if missing q
          then (Reply 400 (ErrorBody (js ''Missing from, to, or dep'')), [])
          else (case search_and_price rt w q cls of
                  (Inl e, tr) \<Rightarrow> (failed rt e, tr)
                | (Inr (conns, prices), tr) \<Rightarrow>
                    (case assemble rt conns prices of
                       Inl e \<Rightarrow> (failed rt e, tr)
                     | Inr out \<Rightarrow> (Reply 200 (Connections out), tr))))"

section \<open>Specification-side definitions and sample data\<close>

text \<open>
  The two amounts as the specification words them: \<open>sourceAmount = round2(p / 100)\<close> and
  \<open>targetAmount = round2(sourceAmount / r)\<close>, for a price \<open>p\<close> in minor units and a
  positive rate \<open>r\<close>. The amounts are doubles. \<open>round2\<close> rounds to two decimal places:
  it takes the multiple of \<open>1 / 100\<close> nearest to the exact value of its argument, the one
  away from zero of two (\<open>hundredths\<close>), and returns the double nearest to it, with the
  sign of the argument when that is a zero; it leaves the negative zero unsigned and
  \<open>NaN\<close> and the infinities as they are. The quotient of a double by a positive rate
  is the double nearest to the exact quotient.
\<close>

definition hundredths :: "rat \<Rightarrow> rat" where
  "hundredths v = sgn v * of_int (round (\<bar>v\<bar> * 100)) / 100"

definition round2 :: "jsnum \<Rightarrow> jsnum" where
  "round2 x =
     (case x of
        Fin v \<Rightarrow> if hundredths v = 0 then zero_of (v < 0) else to_double (hundredths v)
      | NegZero \<Rightarrow> Fin 0
      | NaN \<Rightarrow> NaN
      | PInf \<Rightarrow> PInf
      | NInf \<Rightarrow> NInf)"

definition quotient :: "jsnum \<Rightarrow> rat \<Rightarrow> jsnum" where
  "quotient x r = (case x of Fin v \<Rightarrow> to_double (v / r) | n \<Rightarrow> n)"

definition sourceAmount :: "int \<Rightarrow> jsnum" where
  "sourceAmount p = round2 (to_double (of_int p / 100))"

definition targetAmount :: "int \<Rightarrow> rat \<Rightarrow> jsnum" where
  "targetAmount p r = round2 (quotient (sourceAmount p) r)"

text \<open>
  The line label as the specification words it: of the tokens, each a string or absent,
  the empty and the absent ones are dropped, the rest joined by single spaces, and the
  result trimmed.
\<close>

fun join_spaces :: "jsstring list \<Rightarrow> jsstring" where
  "join_spaces [] = []"
| "join_spaces [s] = s"
| "join_spaces (s # t # ts) = s @ js '' '' @ join_spaces (t # ts)"

fun present :: "jsstring option list \<Rightarrow> jsstring list" where
  "present [] = []"
| "present (None # ts) = present ts"
| "present (Some s # ts) = (if s = [] then present ts else s # present ts)"

text \<open>
  Trimming, on its own terms: the white space of ECMAScript (\<open>WhiteSpace\<close> and
  \<open>LineTerminator\<close>) by code point, removed from the left end and from the right end.
\<close>

definition white_space :: "jschar \<Rightarrow> bool" where
  "white_space c =
     (unat c \<in> set ([9, 10, 11, 12, 13, 32, 160, 5760] @ [8192..<8203]
        @ [8232, 8233, 8239, 8287, 12288, 65279]))"

fun strip_left :: "jsstring \<Rightarrow> jsstring" where
  "strip_left [] = []"
| "strip_left (c # cs) = (if white_space c then strip_left cs else c # cs)"

fun strip_right :: "jsstring \<Rightarrow> jsstring" where
  "strip_right [] = []"
| "strip_right (c # cs) =
     (let t = strip_right cs in if t = [] \<and> white_space c then [] else c # t)"

definition lineName_spec :: "jsstring option list \<Rightarrow> jsstring" where
  "lineName_spec tokens = strip_right (strip_left (join_spaces (present tokens)))"

text \<open>A token of the remote data that is a string, or absent (\<open>undefined\<close> or \<open>null\<close>).\<close>

fun optional_token :: "jsval \<Rightarrow> bool" where
  "optional_token JUndefined = True"
| "optional_token JNull = True"
| "optional_token (JStr s) = True"
| "optional_token v = False"

fun as_string :: "jsval \<Rightarrow> jsstring option" where
  "as_string (JStr s) = Some s"
| "as_string v = None"

definition leg_tokens :: "jsval \<Rightarrow> jsval list" where
  "leg_tokens leg = map (opt_get leg) [js ''sType'', js ''sNum1'', js ''sNum2'', js ''sNum3'']"

text \<open>
  The values of a query parameter that Express can hand over, and the ones among them
  that JavaScript takes for false: the absent parameter and the empty string.
\<close>

fun query_value :: "jsval \<Rightarrow> bool" where
  "query_value JUndefined = True"
| "query_value (JStr s) = True"
| "query_value (JArr xs) = True"
| "query_value (JObj kvs) = True"
| "query_value v = False"

definition absent_or_empty :: "jsval \<Rightarrow> bool" where
  "absent_or_empty v = (v = JUndefined \<or> v = JStr [])"

text \<open>
  The list of prices in the answer to the last call of a trace: the array under
  \<^verbatim>\<open>d\<close>, or no entry when there is none.
\<close>

definition price_list_returned :: "world \<Rightarrow> call list \<Rightarrow> jsval list" where
  "price_list_returned w tr =
     (case respond w (butlast tr) (last tr) of
        NetworkFailure m \<Rightarrow> []
      | Response res \<Rightarrow>
          (case res_json res of
             Inl m \<Rightarrow> []
           | Inr json \<Rightarrow> (case opt_get json (js ''d'') of JArr ps \<Rightarrow> ps | _ \<Rightarrow> [])))"

text \<open>
  An answer to the rate lookup that has no \<^verbatim>\<open>CZK\<close> field: a JSON body whose
  \<^verbatim>\<open>rates\<close> can be read and holds no \<^verbatim>\<open>CZK\<close>.
\<close>

definition no_CZK_field :: "fetched \<Rightarrow> bool" where
  "no_CZK_field answer =
     (case answer of
        NetworkFailure m \<Rightarrow> False
      | Response res \<Rightarrow>
          (case res_json res of
             Inl m \<Rightarrow> False
           | Inr json \<Rightarrow>
               (case get_prop json (js ''rates'') of
                  Inl e \<Rightarrow> False
                | Inr rates \<Rightarrow> opt_get rates (js ''CZK'') = JUndefined)))"

subsection \<open>A sample run\<close>

text \<open>
  A runtime that reads strings of decimal digits, and a world in the shape of the
  end-to-end scenario of the specification: every station mask resolves, the journey
  search finds two connections, and the answers to the session, rate and price calls
  are parameters.
\<close>

definition sample_runtime :: runtime where
  "sample_runtime =
     \<lparr>StringToNumber =
        (\<lambda>s. case parseInt_digits s of
               None \<Rightarrow> NaN
             | Some n \<Rightarrow> if list_all is_digit s then to_double (of_nat n) else NaN),
      FractionToString = (\<lambda>q. js ''?''),
      engine_message = (\<lambda>f. js ''engine error'')\<rparr>"

definition json_reply :: "jsval \<Rightarrow> fetched" where
  "json_reply j =
     Response \<lparr>res_status = 200, res_statusText = js ''OK'', res_text = [], res_json = Inr j\<rparr>"

definition sample_leg :: jsval where
  "sample_leg =
     JObj [(js ''dtDateTime1'', JStr (js ''/Date(1700000000000)/'')),
           (js ''dtDateTime2'', JStr (js ''/Date(1700000000000)/'')),
           (js ''sStationName1'', JStr (js ''Praha hl.n.'')),
           (js ''sStationName2'', JStr (js ''Brno hl.n.'')),
           (js ''sType'', JStr (js ''EC'')), (js ''sNum1'', JStr (js ''123'')),
           (js ''sNum2'', JStr []), (js ''sNum3'', JNull)]"

definition sample_leg_out :: leg_out where
  "sample_leg_out =
     \<lparr>depTime = js ''2023-11-14T22:13:20.000Z'', arrTime = js ''2023-11-14T22:13:20.000Z'',
      depName = JStr (js ''Praha hl.n.''), destName = JStr (js ''Brno hl.n.''),
      lineName = js ''EC 123''\<rparr>"

text \<open>A leg whose tokens carry white space at their ends, and no \<^verbatim>\<open>sNum2\<close>.\<close>

definition padded_leg :: jsval where
  "padded_leg =
     JObj [(js ''dtDateTime1'', JStr (js ''/Date(1700000000000)/'')),
           (js ''dtDateTime2'', JStr (js ''/Date(1700000000000)/'')),
           (js ''sStationName1'', JStr (js ''Praha hl.n.'')),
           (js ''sStationName2'', JStr (js ''Brno hl.n.'')),
           (js ''sType'', JStr (160 # js ''EC'')), (js ''sNum1'', JStr (js ''123'')),
           (js ''sNum3'', JStr (js ''7'' @ [9, 32]))]"

definition padded_leg_out :: leg_out where
  "padded_leg_out =
     \<lparr>depTime = js ''2023-11-14T22:13:20.000Z'', arrTime = js ''2023-11-14T22:13:20.000Z'',
      depName = JStr (js ''Praha hl.n.''), destName = JStr (js ''Brno hl.n.''),
      lineName = js ''EC 123 7''\<rparr>"

definition sample_connections :: "jsval list" where
  "sample_connections =
     [JObj [(js ''iID'', num 101), (js ''aoTrains'', JArr [sample_leg])],
      JObj [(js ''iID'', num 102), (js ''aoTrains'', JArr [sample_leg, sample_leg])]]"

definition sample_world :: "jsval \<Rightarrow> jsval \<Rightarrow> jsval \<Rightarrow> world" where
  "sample_world session_json rate_json price_json =
     \<lparr>respond =
        (\<lambda>h c. case c of
                 GET url \<Rightarrow> json_reply rate_json
               | POST url body \<Rightarrow>
                   if url = station_url
                   then json_reply
                          (JObj [(js ''d'',
                             JArr [JObj [(js ''oItem'',
                               JObj [(js ''iListID'', num 1),
                                     (js ''sName'', opt_get body (js ''sMask''))])]])])
                   else if url = session_url then json_reply session_json
                   else if url = journey_url
                   then json_reply
                          (JObj [(js ''d'',
                             JObj [(js ''iHandle'', num 7),
                                   (js ''oConnInfo'',
                                      JObj [(js ''aoConnections'', JArr sample_connections)])])])
                   else json_reply price_json),
      second_settles_first = False\<rparr>"

definition sample_session :: jsval where
  "sample_session = JObj [(js ''d'', JObj [(js ''sSessionID'', JStr (js ''S1''))])]"

definition sample_rate :: jsval where
  "sample_rate = JObj [(js ''rates'', JObj [(js ''CZK'', num 25)])]"

definition sample_prices :: jsval where
  "sample_prices =
     JObj [(js ''d'', JArr [JObj [(js ''iPrice'', num 15900)], JObj [(js ''iPrice'', num 9990)]])]"

definition sample_query :: query where
  "sample_query =
     \<lparr>q_from = JStr (js ''Praha''), q_to = JStr (js ''Brno''),
      q_dep = JStr (js ''1700000000000''), q_age = JStr (js ''25''),
      q_class = JStr (js ''2'')\<rparr>"

definition sample_price_list :: "price list" where
  "sample_price_list =
     [\<lparr>czk = Fin 159, eur = Fin (7160723407519089 / 1125899906842624)\<rparr>, \<lparr>czk = Fin (3514918771674317 / 35184372088832), eur = Fin 4\<rparr>]"

definition sample_output :: "conn_out list" where
  "sample_output =
     [\<lparr>conn_id = num 101, priceCzk = Fin 159, priceEur = Fin (7160723407519089 / 1125899906842624), transfers = Fin 0,
       legs = [sample_leg_out]\<rparr>,
      \<lparr>conn_id = num 102, priceCzk = Fin (3514918771674317 / 35184372088832), priceEur = Fin 4, transfers = Fin 1,
       legs = [sample_leg_out, sample_leg_out]\<rparr>]"

text \<open>The calls of the sample run, in order, with session token \<open>sid\<close>.\<close>

definition sample_trace :: "jsval \<Rightarrow> call list" where
  "sample_trace sid =
    [POST station_url (station_body (JStr (js ''Praha''))),
     POST station_url (station_body (JStr (js ''Brno''))),
     POST session_url session_body,
     POST journey_url (journey_body sample_runtime sid
        \<lparr>st_id = num 1, st_name = JStr (js ''Praha'')\<rparr>
        \<lparr>st_id = num 1, st_name = JStr (js ''Brno'')\<rparr> (Fin 1700000000000) (Fin 2) (Fin 25)),
     GET rate_url,
     POST price_url (price_body sid (num 7) [num 101, num 102] (Fin 2) (Fin 25))]"

text \<open>
  Variations of the sample run: a price list one entry short, a rate answer with no
  \<^verbatim>\<open>CZK\<close> (and what the run then returns), a session answer with no token, and a
  request whose \<^verbatim>\<open>from\<close> is present and empty.
\<close>

definition short_prices :: jsval where
  "short_prices = JObj [(js ''d'', JArr [JObj [(js ''iPrice'', num 15900)]])]"

definition rate_without_CZK :: jsval where
  "rate_without_CZK = JObj [(js ''rates'', JObj [])]"

definition unconverted_price_list :: "price list" where
  "unconverted_price_list =
     [\<lparr>czk = Fin 159, eur = Fin 159\<rparr>, \<lparr>czk = Fin (3514918771674317 / 35184372088832), eur = Fin (3514918771674317 / 35184372088832)\<rparr>]"

definition unconverted_output :: "conn_out list" where
  "unconverted_output =
     [\<lparr>conn_id = num 101, priceCzk = Fin 159, priceEur = Fin 159, transfers = Fin 0,
       legs = [sample_leg_out]\<rparr>,
      \<lparr>conn_id = num 102, priceCzk = Fin (3514918771674317 / 35184372088832), priceEur = Fin (3514918771674317 / 35184372088832),
       transfers = Fin 1, legs = [sample_leg_out, sample_leg_out]\<rparr>]"

definition session_without_token :: jsval where
  "session_without_token = JObj [(js ''d'', JObj [])]"

definition empty_from_query :: query where
  "empty_from_query = sample_query\<lparr>q_from := JStr []\<rparr>"

section \<open>Basic facts\<close>

lemma of_char_word_inj [simp]: "((of_char c :: 16 word) = of_char d) = (c = d)"
proof -
  have tb: "take_bit 16 (of_char x :: nat) = of_char x" for x
    by (rule take_bit_nat_eq_self, rule less_trans [OF nat_of_char_less_256]) simp
  have "((of_nat (of_char c :: nat) :: 16 word) = of_nat (of_char d :: nat)) = (c = d)"
    by (simp add: word_of_nat_eq_iff tb del: of_nat_of_char)
  then show ?thesis
    by (simp add: of_nat_of_char)
qed

lemma js_inj [simp]: "(js a = js b) = (a = b)"
  unfolding js_def by (rule inj_map_eq_map) (simp add: inj_on_def)

lemma js_Nil [simp]: "js [] = []" "(js a = []) = (a = [])" "([] = js a) = (a = [])"
  by (auto simp: js_def)

lemma bindE_simps [simp]: "bindE (Inl e) f = Inl e" "bindE (Inr x) f = f x"
  by (simp_all add: bindE_def)

lemma bindE_eq_Inr: "(bindE m f = Inr y) = (\<exists>x. m = Inr x \<and> f x = Inr y)"
  by (cases m) simp_all

lemma get_prop_opt_get: "get_prop v k = Inr x \<Longrightarrow> opt_get v k = x"
  by (cases v) simp_all

lemma num_simps [simp]:
  "ToNumber rt (num n) = Inr (Fin (of_int n))" "truthy (num n) = (n \<noteq> 0)"
  by (simp_all add: num_def)

subsection \<open>Mapping\<close>

lemma mapE_eq_Inr: "(mapE f xs = Inr ys) = list_all2 (\<lambda>x y. f x = Inr y) xs ys"
proof (induction xs arbitrary: ys)
  case Nil
  then show ?case by auto
next
  case (Cons x xs)
  show ?case
  proof (cases "f x")
    case (Inl e)
    then show ?thesis by (auto simp: list_all2_Cons1)
  next
    case (Inr y)
    then show ?thesis
      using Cons.IH by (cases "mapE f xs") (auto simp: list_all2_Cons1)
  qed
qed

lemma array_map_JArr:
  assumes "array_map f (JArr xs) = Inr ys"
  shows "length ys = length xs" and "i < length xs \<Longrightarrow> f (xs ! i) i = Inr (ys ! i)"
proof -
  from assms
  have a: "list_all2 (\<lambda>p y. (case p of (i, x) \<Rightarrow> f x i) = Inr y) (enumerate 0 xs) ys"
    by (simp add: mapE_eq_Inr)
  then show "length ys = length xs"
    by (auto dest: list_all2_lengthD)
  show "f (xs ! i) i = Inr (ys ! i)" if "i < length xs"
    using list_all2_nthD [OF a, of i] that by (simp add: nth_enumerate_eq)
qed

lemma array_map_eq_Inr_cases:
  assumes "array_map f v = Inr ys"
  obtains xs where "v = JArr xs"
  using assms by (cases v) simp_all

subsection \<open>Doubles\<close>

text \<open>
  The binary logarithm: a positive \<open>n\<close> has \<open>bits n\<close> binary digits, and \<open>ilog2 a\<close> is the
  exponent of the power of two at or below \<open>a\<close>.
\<close>

lemma bits_bounds:
  "0 < n \<Longrightarrow> 0 < bits n \<and> 2 ^ nat (bits n - 1) \<le> n \<and> n < 2 ^ nat (bits n)"
proof (induction n rule: bits.induct)
  case (1 n)
  define h where "h = n div 2"
  have b: "bits n = 1 + bits h" using "1.prems" by (subst bits.simps) (simp add: h_def)
  show ?case
  proof (cases "h \<le> 0")
    case True
    with "1.prems" have "n = 1" unfolding h_def by presburger
    moreover have "bits h = 0" using True by (subst bits.simps) simp
    ultimately show ?thesis using b by simp
  next
    case False
    then have pos: "0 < h" by simp
    from "1.IH" [OF _ pos [unfolded h_def]] "1.prems"
    have ih: "0 < bits h" "2 ^ nat (bits h - 1) \<le> h" "h < 2 ^ nat (bits h)"
      by (auto simp: h_def)
    have e1: "nat (bits n - 1) = Suc (nat (bits h - 1))" using ih(1) b by simp
    have e2: "nat (bits n) = Suc (nat (bits h))" using ih(1) b by simp
    have n: "2 * h \<le> n" "n < 2 * h + 2" unfolding h_def by presburger+
    have "(2::int) ^ nat (bits n - 1) = 2 * 2 ^ nat (bits h - 1)" by (simp add: e1)
    also have "\<dots> \<le> 2 * h" using ih(2) by simp
    finally have l: "2 ^ nat (bits n - 1) \<le> n" using n(1) by simp
    have "2 * h + 2 \<le> 2 * 2 ^ nat (bits h)" using ih(3) by simp
    then have "n < 2 ^ nat (bits n)" using n(2) by (simp add: e2)
    with l ih(1) b show ?thesis by simp
  qed
qed

lemma powi_nonneg_int: "0 \<le> e \<Longrightarrow> (2::rat) powi e = of_int (2 ^ nat e)"
  by (simp add: power_int_def)

lemma ilog2_bounds:
  assumes "0 < a"
  shows "2 powi (ilog2 a) \<le> a \<and> a < 2 powi (ilog2 a + 1)"
proof (cases "1 \<le> a")
  case True
  define n where "n = \<lfloor>a\<rfloor>"
  have n: "0 < n" "of_int n \<le> a" "a < of_int (n + 1)"
    using True by (auto simp: n_def) linarith+
  from bits_bounds [OF n(1)]
  have b: "0 < bits n" "2 ^ nat (bits n - 1) \<le> n" "n + 1 \<le> 2 ^ nat (bits n)" by auto
  have e: "ilog2 a = bits n - 1" using True by (simp add: ilog2_def n_def)
  have "(2::rat) powi (bits n - 1) = of_int (2 ^ nat (bits n - 1))"
    using b(1) by (intro powi_nonneg_int) simp
  also have "\<dots> \<le> of_int n" using b(2) by (simp only: of_int_le_iff)
  also note n(2)
  finally have l: "2 powi (ilog2 a) \<le> a" by (simp only: e)
  note n(3)
  also have "(of_int (n + 1) :: rat) \<le> of_int (2 ^ nat (bits n))"
    using b(3) by (simp only: of_int_le_iff)
  also have "\<dots> = 2 powi (bits n)"
    using b(1) by (intro powi_nonneg_int [symmetric]) simp
  finally have "a < 2 powi (ilog2 a + 1)" by (simp add: e)
  with l show ?thesis by simp
next
  case False
  define b where "b = 1 / a"
  have b1: "1 < b" using False assms by (simp add: b_def)
  then have bpos: "0 < b" by simp
  define c where "c = \<lceil>b\<rceil> - 1"
  have cb: "of_int c < b" "b \<le> of_int (c + 1)" "0 < c"
    using b1 by (auto simp: c_def) linarith+
  define k where "k = bits c"
  from bits_bounds [OF cb(3)]
  have bb: "0 < k" "2 ^ nat (k - 1) \<le> c" "c + 1 \<le> 2 ^ nat k" by (auto simp: k_def)
  have e: "ilog2 a = - k" using False by (simp add: ilog2_def b_def c_def k_def)
  note cb(2)
  also have "(of_int (c + 1) :: rat) \<le> of_int (2 ^ nat k)"
    using bb(3) by (simp only: of_int_le_iff)
  also have "\<dots> = 2 powi k" using bb(1) by (intro powi_nonneg_int [symmetric]) simp
  finally have up: "b \<le> 2 powi k" .
  have "(2::rat) powi (k - 1) = of_int (2 ^ nat (k - 1))"
    using bb(1) by (intro powi_nonneg_int) simp
  also have "\<dots> \<le> of_int c" using bb(2) by (simp only: of_int_le_iff)
  also note cb(1)
  finally have lo: "2 powi (k - 1) < b" .
  have ab: "1 / b = a" using assms by (simp add: b_def)
  have p: "0 < (2::rat) powi k" "0 < (2::rat) powi (k - 1)" by (simp_all add: zero_less_power_int)
  have "2 powi (- k) = 1 / (2::rat) powi k"
    by (simp add: power_int_minus field_simps)
  also have "\<dots> \<le> 1 / b" using up b1 by (intro divide_left_mono) simp_all
  also note ab
  finally have l: "2 powi (ilog2 a) \<le> a" by (simp only: e)
  have "- k + 1 = - (k - 1)" by simp
  then have "2 powi (- k + 1) = 1 / (2::rat) powi (k - 1)"
    by (simp only: power_int_minus inverse_eq_divide)
  moreover have "1 / b < 1 / (2::rat) powi (k - 1)"
    using lo p(2) bpos by (intro divide_strict_left_mono mult_pos_pos) simp_all
  ultimately have "a < 2 powi (- k + 1)" by (simp only: ab)
  then have "a < 2 powi (ilog2 a + 1)" by (simp only: e)
  with l show ?thesis by simp
qed

text \<open>Powers of two with an integer exponent.\<close>

lemma powi_less_cancel: "(2::rat) powi m < 2 powi n \<Longrightarrow> m < n"
proof (rule ccontr)
  assume a: "(2::rat) powi m < 2 powi n" and "\<not> m < n"
  then have "n \<le> m" by simp
  then have "(2::rat) powi n \<le> 2 powi m" by (rule power_int_increasing) simp
  with a show False by simp
qed

lemma powi_pos: "0 < (2::rat) powi n"
  by (simp add: zero_less_power_int)

lemma powi_mono: "m \<le> n \<Longrightarrow> (2::rat) powi m \<le> 2 powi n"
  by (rule power_int_increasing) simp_all

lemma powi_add: "(2::rat) powi (m + n) = 2 powi m * 2 powi n"
  by (rule power_int_add) simp

lemma ilog2_unique:
  assumes "2 powi e \<le> a" and "a < 2 powi (e + 1)"
  shows "ilog2 a = e"
proof -
  have "0 < a" using assms(1) powi_pos [of e] by linarith
  from ilog2_bounds [OF this]
  have b: "2 powi (ilog2 a) \<le> a" "a < 2 powi (ilog2 a + 1)" by auto
  have "(2::rat) powi (ilog2 a) < 2 powi (e + 1)" using b(1) assms(2) by linarith
  then have 1: "ilog2 a < e + 1" by (rule powi_less_cancel)
  have "(2::rat) powi e < 2 powi (ilog2 a + 1)" using b(2) assms(1) by linarith
  then have "e < ilog2 a + 1" by (rule powi_less_cancel)
  with 1 show ?thesis by simp
qed

text \<open>
  Rounding to an integer: a value less than a half away from an integer rounds to it,
  and the result is at most a half away from the value.
\<close>

lemma rne_near:
  assumes "\<bar>y - of_int k\<bar> < 1 / 2"
  shows "rne y = k"
proof -
  consider "of_int k \<le> y" | "y < of_int k" by linarith
  then show ?thesis
  proof cases
    case 1
    have "\<lfloor>y\<rfloor> = k" using 1 assms by (intro floor_unique) linarith+
    then show ?thesis using assms 1 by (simp add: rne_def Let_def)
  next
    case 2
    have k1: "(of_int (k - 1) :: rat) = of_int k - 1" by simp
    have f: "\<lfloor>y\<rfloor> = k - 1" using 2 assms unfolding k1 by (intro floor_unique; unfold k1) linarith+
    have "1 / 2 < y - of_int (k - 1)" using 2 assms unfolding k1 by linarith
    then show ?thesis using f by (simp add: rne_def Let_def)
  qed
qed

lemma rne_of_int: "rne (of_int k) = k"
  by (rule rne_near) simp

lemma rne_err: "\<bar>of_int (rne y) - y\<bar> \<le> 1 / 2"
proof -
  have "of_int \<lfloor>y\<rfloor> \<le> y" "y < of_int \<lfloor>y\<rfloor> + 1" by linarith+
  then show ?thesis by (auto simp: rne_def Let_def)
qed

text \<open>
  A rounding is certified by the exponent \<open>q\<close> of the doubles around \<open>x\<close> and an integer
  \<open>m\<close> less than a half away from \<open>x / 2\<^sup>q\<close>. Below \<open>2\<^sup>-\<^sup>1\<^sup>0\<^sup>2\<^sup>2\<close> the exponent is \<open>-1074\<close>.
\<close>

lemma round_pos_near:
  assumes "- 1074 \<le> q" and "2 powi (q + 52) \<le> x" and "x < 2 powi (q + 53)"
    and "\<bar>x / 2 powi q - of_int m\<bar> < 1 / 2"
  shows "round_pos x = of_int m * 2 powi q"
proof -
  have "ilog2 x = q + 52" using assms(2,3) by (intro ilog2_unique) (simp_all add: add.commute add.left_commute)
  then have "max (ilog2 x - 52) (- 1074) = q" using assms(1) by simp
  then show ?thesis using rne_near [OF assms(4)] by (simp add: round_pos_def Let_def)
qed

lemma round_pos_sub:
  assumes "0 < x" and "x < 2 powi (- 1022)"
  shows "round_pos x = of_int (rne (x / 2 powi (- 1074))) * 2 powi (- 1074)"
proof -
  from ilog2_bounds [OF assms(1)] have "2 powi (ilog2 x) \<le> x" by simp
  with assms(2) have "(2::rat) powi (ilog2 x) < 2 powi (- 1022)" by linarith
  then have "ilog2 x < - 1022" by (rule powi_less_cancel)
  then have "max (ilog2 x - 52) (- 1074) = - 1074" by simp
  then show ?thesis by (simp add: round_pos_def Let_def)
qed

text \<open>
  Every \<open>m \<cdot> 2\<^sup>q\<close> with \<open>2\<^sup>5\<^sup>2 \<le> m \<le> 2\<^sup>5\<^sup>3\<close> and \<open>q \<ge> -1074\<close>, and every \<open>m \<cdot> 2\<^sup>-\<^sup>1\<^sup>0\<^sup>7\<^sup>4\<close> with
  \<open>m < 2\<^sup>5\<^sup>2\<close>, is its own rounding.
\<close>

lemma powi_52: "(2::rat) powi (q + 52) = 2 ^ 52 * 2 powi q"
  by (simp add: powi_add)

lemma powi_53: "(2::rat) powi (q + 53) = 2 ^ 53 * 2 powi q"
  by (simp add: powi_add)

lemma of_int_ge_pow: "2 ^ n \<le> m \<Longrightarrow> (2::rat) ^ n \<le> of_int m"
proof -
  assume "2 ^ n \<le> m"
  then have "(of_int (2 ^ n) :: rat) \<le> of_int m" by (simp only: of_int_le_iff)
  then show ?thesis by simp
qed

lemma of_int_lt_pow: "m < 2 ^ n \<Longrightarrow> (of_int m :: rat) < 2 ^ n"
proof -
  assume "m < 2 ^ n"
  then have "(of_int m :: rat) < of_int (2 ^ n)" by (simp only: of_int_less_iff)
  then show ?thesis by simp
qed

lemma round_pos_0: "round_pos 0 = 0"
  by (simp add: round_pos_def Let_def rne_def)

lemma round_pos_repr:
  assumes "2 ^ 52 \<le> m" and "m < 2 ^ 53" and "- 1074 \<le> q"
  shows "round_pos (of_int m * 2 powi q) = of_int m * 2 powi q"
proof (rule round_pos_near [OF assms(3)])
  have m: "(2::rat) ^ 52 \<le> of_int m" "(of_int m :: rat) < 2 ^ 53"
    by (rule of_int_ge_pow [OF assms(1)], rule of_int_lt_pow [OF assms(2)])
  show "(2::rat) powi (q + 52) \<le> of_int m * 2 powi q"
    unfolding powi_52 using m(1) powi_pos [of q] by (intro mult_right_mono) simp_all
  show "of_int m * 2 powi q < (2::rat) powi (q + 53)"
    unfolding powi_53 using m(2) powi_pos [of q] by (intro mult_strict_right_mono) simp_all
  show "\<bar>of_int m * 2 powi q / 2 powi q - of_int m\<bar> < (1::rat) / 2"
    using powi_pos [of q] by simp
qed

lemma round_pos_repr_53:
  assumes "- 1074 \<le> q"
  shows "round_pos (2 ^ 53 * 2 powi q) = 2 ^ 53 * 2 powi q"
proof -
  have eq: "of_int (2 ^ 52) * 2 powi (q + 1) = (2::rat) ^ 53 * 2 powi q"
    by (simp add: powi_add)
  have "round_pos (of_int (2 ^ 52) * 2 powi (q + 1)) = of_int (2 ^ 52) * 2 powi (q + 1)"
    using assms by (intro round_pos_repr) simp_all
  then show ?thesis by (simp only: eq)
qed

lemma round_pos_repr_sub:
  assumes "0 < m" and "m < 2 ^ 52"
  shows "round_pos (of_int m * 2 powi (- 1074)) = of_int m * 2 powi (- 1074)"
proof -
  have m: "(0::rat) < of_int m" "(of_int m :: rat) < 2 ^ 52"
    using assms(1) of_int_lt_pow [OF assms(2)] by simp_all
  have p: "(2::rat) powi (- 1022) = 2 ^ 52 * 2 powi (- 1074)"
    using powi_52 [of "- 1074"] by simp
  have lt: "of_int m * 2 powi (- 1074) < (2::rat) powi (- 1022)"
    unfolding p using m(2) powi_pos [of "- 1074"] by (intro mult_strict_right_mono) simp_all
  have pos: "(0::rat) < of_int m * 2 powi (- 1074)"
    using m(1) powi_pos [of "- 1074"] by simp
  have "of_int m * (2::rat) powi (- 1074) / 2 powi (- 1074) = of_int m"
    using powi_pos [of "- 1074"] by simp
  then show ?thesis
    unfolding round_pos_sub [OF pos lt] by (simp only: rne_of_int)
qed

text \<open>The rounding of a value has one of these forms, so rounding twice is rounding once.\<close>

lemma round_pos_normal:
  assumes "2 powi (- 1022) \<le> a"
  obtains m q where "- 1074 \<le> q" and "2 ^ 52 \<le> m" and "m \<le> 2 ^ 53"
    and "round_pos a = of_int m * 2 powi q"
    and "\<bar>of_int m - a / 2 powi q\<bar> \<le> 1 / 2"
    and "2 powi (q + 52) \<le> a" and "a < 2 powi (q + 53)"
proof -
  have pos: "0 < a" using assms powi_pos [of "- 1022"] by linarith
  define q where "q = ilog2 a - 52"
  define m where "m = rne (a / 2 powi q)"
  from ilog2_bounds [OF pos] have b: "2 powi (q + 52) \<le> a" "a < 2 powi (q + 53)"
    by (simp_all add: q_def add.commute)
  have "(2::rat) powi (- 1022) < 2 powi (q + 53)" using assms b(2) by linarith
  then have q: "- 1074 \<le> q" using powi_less_cancel [of "- 1022" "q + 53"] by simp
  then have mx: "max (ilog2 a - 52) (- 1074) = q" by (simp add: q_def)
  have r: "round_pos a = of_int m * 2 powi q"
    by (simp add: round_pos_def Let_def mx m_def)
  have e: "\<bar>of_int m - a / 2 powi q\<bar> \<le> 1 / 2" unfolding m_def by (rule rne_err)
  have y: "2 ^ 52 \<le> a / 2 powi q" "a / 2 powi q < 2 ^ 53"
    using b powi_pos [of q] by (simp_all add: powi_52 powi_53 field_simps)
  have "(2::rat) ^ 52 - 1 < of_int m" using e y(1) by linarith
  then have "(of_int (2 ^ 52 - 1) :: rat) < of_int m" by simp
  then have m1: "2 ^ 52 \<le> m" unfolding of_int_less_iff by simp
  have "(of_int m :: rat) < 2 ^ 53 + 1" using e y(2) by linarith
  then have "(of_int m :: rat) < of_int (2 ^ 53 + 1)" by simp
  then have m2: "m \<le> 2 ^ 53" unfolding of_int_less_iff by simp
  from that [OF q m1 m2 r e b] show thesis .
qed

lemma round_pos_subnormal:
  assumes "0 < a" and "a < 2 powi (- 1022)"
  obtains m where "0 \<le> m" and "m \<le> 2 ^ 52"
    and "round_pos a = of_int m * 2 powi (- 1074)"
proof -
  define m where "m = rne (a / 2 powi (- 1074))"
  have r: "round_pos a = of_int m * 2 powi (- 1074)"
    unfolding m_def by (rule round_pos_sub [OF assms])
  have e: "\<bar>of_int m - a / 2 powi (- 1074)\<bar> \<le> 1 / 2" unfolding m_def by (rule rne_err)
  have p: "(2::rat) powi (- 1022) = 2 ^ 52 * 2 powi (- 1074)"
    using powi_52 [of "- 1074"] by simp
  have y: "0 < a / 2 powi (- 1074)" "a / 2 powi (- 1074) < 2 ^ 52"
    using assms powi_pos [of "- 1074"] unfolding p by (simp_all add: field_simps)
  have "(- 1 :: rat) < of_int m" using e y(1) by linarith
  then have "(of_int (- 1) :: rat) < of_int m" by simp
  then have m1: "0 \<le> m" unfolding of_int_less_iff by simp
  have "(of_int m :: rat) < 2 ^ 52 + 1" using e y(2) by linarith
  then have "(of_int m :: rat) < of_int (2 ^ 52 + 1)" by simp
  then have m2: "m \<le> 2 ^ 52" unfolding of_int_less_iff by simp
  from that [OF m1 m2 r] show thesis .
qed

lemma round_pos_idem:
  assumes "0 \<le> a"
  shows "round_pos (round_pos a) = round_pos a"
proof -
  consider "a = 0" | "0 < a" "a < 2 powi (- 1022)" | "2 powi (- 1022) \<le> a"
    using assms by linarith
  then show ?thesis
  proof cases
    case 1
    then show ?thesis by (simp add: round_pos_0)
  next
    case 2
    from round_pos_subnormal [OF 2] obtain m where m: "0 \<le> m" "m \<le> 2 ^ 52"
      "round_pos a = of_int m * 2 powi (- 1074)" by blast
    consider "m = 0" | "0 < m" "m < 2 ^ 52" | "m = 2 ^ 52" using m(1,2) by linarith
    then show ?thesis
    proof cases
      case 1
      then show ?thesis by (simp add: m(3) round_pos_0)
    next
      case 2
      then show ?thesis unfolding m(3) by (rule round_pos_repr_sub)
    next
      case 3
      have "round_pos (of_int m * 2 powi (- 1074)) = of_int m * 2 powi (- 1074)"
        using 3 by (intro round_pos_repr) simp_all
      then show ?thesis by (simp only: m(3))
    qed
  next
    case 3
    from round_pos_normal [OF 3] obtain m q where m: "- 1074 \<le> q" "2 ^ 52 \<le> m" "m \<le> 2 ^ 53"
      "round_pos a = of_int m * 2 powi q" by blast
    consider "m < 2 ^ 53" | "m = 2 ^ 53" using m(3) by linarith
    then show ?thesis
    proof cases
      case 1
      show ?thesis unfolding m(4) by (rule round_pos_repr [OF m(2) 1 m(1)])
    next
      case 2
      have "round_pos a = 2 ^ 53 * 2 powi q" by (simp add: m(4) 2)
      then show ?thesis using round_pos_repr_53 [OF m(1)] by simp
    qed
  qed
qed

lemma round_pos_nonneg: "0 \<le> a \<Longrightarrow> 0 \<le> round_pos a"
proof -
  assume a: "0 \<le> a"
  have "0 \<le> a / 2 powi q" for q using a powi_pos [of q] by simp
  then have "0 \<le> rne (a / 2 powi q)" for q
    by (auto simp: rne_def Let_def)
  then show ?thesis using powi_pos by (simp add: round_pos_def Let_def)
qed

text \<open>
  Two decimals: an integer prints as itself, and what is printed is within \<open>1 / 200\<close> of
  the value. An integer below \<open>2\<^sup>5\<^sup>3\<close> is a double.
\<close>

lemma printed2_of_int: "printed2 (of_int D) = of_int D"
proof -
  have "\<lfloor>(of_int D :: rat) * 100 + 1 / 2\<rfloor> = D * 100"
    by (rule floor_unique) simp_all
  then show ?thesis by (simp add: printed2_def)
qed

lemma printed2_err: "\<bar>printed2 d - d\<bar> \<le> 1 / 200"
proof -
  define k where "k = \<lfloor>d * 100 + 1 / 2\<rfloor>"
  have "of_int k \<le> d * 100 + 1 / 2" "d * 100 + 1 / 2 < of_int k + 1"
    unfolding k_def by linarith+
  moreover have "printed2 d = of_int k / 100" by (simp add: printed2_def k_def)
  ultimately show ?thesis by linarith
qed

lemma round_pos_int:
  assumes "0 < n" and "n < 2 ^ 53"
  shows "round_pos (of_int n) = of_int n"
proof -
  have one: "(1::rat) \<le> of_int n" using assms(1) by simp
  have "(2::rat) powi (- 1022) \<le> 2 powi 0" by (rule powi_mono) simp
  then have "(2::rat) powi (- 1022) \<le> of_int n" using one by simp
  from round_pos_normal [OF this] obtain m q where
    q: "- 1074 \<le> q" "2 powi (q + 52) \<le> (of_int n :: rat)" "(of_int n :: rat) < 2 powi (q + 53)"
    by blast
  have "(of_int n :: rat) < 2 powi 53" using of_int_lt_pow [OF assms(2)] by simp
  with q(2) have "(2::rat) powi (q + 52) < 2 powi 53" by linarith
  then have q0: "q \<le> 0" using powi_less_cancel [of "q + 52" 53] by simp
  define k where "k = nat (- q)"
  have p: "(2::rat) powi q = 1 / 2 ^ k"
    using q0 by (simp add: power_int_def k_def field_simps)
  have "(of_int n :: rat) / 2 powi q = of_int (n * 2 ^ k)" by (simp add: p)
  then have "\<bar>(of_int n :: rat) / 2 powi q - of_int (n * 2 ^ k)\<bar> < 1 / 2" by simp
  from round_pos_near [OF q this] show ?thesis by (simp add: p)
qed

text \<open>
  The double \<open>d = m \<cdot> 2\<^sup>q\<close> of a number of hundredths \<open>n / 100\<close> prints as digits that read
  back as \<open>d\<close>. When \<open>q \<le> -7\<close>, \<open>d\<close> is within \<open>1 / 256\<close> of \<open>n / 100\<close>, so \<open>n / 100\<close> is what
  is printed. When \<open>q \<ge> -6\<close> and \<open>d\<close> is not a power of two, what is printed is within
  \<open>1 / 200\<close> of \<open>d\<close>, less than half of the distance \<open>2\<^sup>q \<ge> 1 / 64\<close> between the doubles
  around \<open>d\<close>, so it rounds to \<open>d\<close>. A power of two is an integer here and prints as
  itself.
\<close>

lemma round_pos_cents:
  assumes "0 < n"
  defines "d \<equiv> round_pos (of_int n / 100)"
  shows "0 < printed2 d \<and> round_pos (printed2 d) = d"
proof -
  define a :: rat where "a = of_int n / 100"
  have a100: "1 / 100 \<le> a" using assms(1) by (simp add: a_def)
  have d: "d = round_pos a" by (simp add: d_def a_def)
  have "(2::rat) powi (- 1022) \<le> 2 powi (- 7)" by (rule powi_mono) simp
  also have "\<dots> \<le> 1 / 100" by (simp add: power_int_minus)
  finally have "2 powi (- 1022) \<le> a" using a100 by linarith
  from round_pos_normal [OF this] obtain m q where
    q: "- 1074 \<le> q" and m: "2 ^ 52 \<le> m" "m \<le> 2 ^ 53"
    and r: "d = of_int m * 2 powi q"
    and e: "\<bar>of_int m - a / 2 powi q\<bar> \<le> 1 / 2"
    and b: "2 powi (q + 52) \<le> a" "a < 2 powi (q + 53)"
    unfolding d by blast
  define t :: rat where "t = 2 powi q"
  have t: "0 < t" unfolding t_def by (rule powi_pos)
  have idem: "round_pos d = d" unfolding d by (rule round_pos_idem) (use a100 in simp)
  have dpos: "0 < d" unfolding r using m(1) of_int_ge_pow [OF m(1)] t by (simp add: t_def)
  have "\<bar>of_int m - a / t\<bar> * t \<le> 1 / 2 * t"
    using e t unfolding t_def by (intro mult_right_mono) simp_all
  moreover have "\<bar>of_int m - a / t\<bar> * t = \<bar>of_int m * t - a\<bar>"
    using t by (simp add: abs_mult_pos [symmetric] field_simps)
  ultimately have "\<bar>of_int m * t - a\<bar> \<le> t / 2" by linarith
  then have err: "\<bar>d - a\<bar> \<le> t / 2" unfolding r t_def .
  consider "q \<le> - 7" | "- 6 \<le> q" "m = 2 ^ 52 \<or> m = 2 ^ 53"
    | "- 6 \<le> q" "2 ^ 52 < m" "m < 2 ^ 53"
    using m by linarith
  then show ?thesis
  proof cases
    case 1
    then have "(2::rat) powi q \<le> 2 powi (- 7)" by (rule powi_mono)
    then have "t \<le> 1 / 128" by (simp add: t_def power_int_minus)
    with err have "\<bar>d - a\<bar> \<le> 1 / 256" by linarith
    then have "\<bar>d * 100 - of_int n\<bar> \<le> 100 / 256" by (simp add: a_def abs_le_iff field_simps)
    then have "\<lfloor>d * 100 + 1 / 2\<rfloor> = n" by (intro floor_unique) linarith+
    then have "printed2 d = a" by (simp add: printed2_def a_def)
    then show ?thesis using a100 d by simp
  next
    case 2
    have "\<exists>j. d = 2 powi j \<and> 0 \<le> j"
    proof (cases "m = 2 ^ 52")
      case True
      then have "d = 2 powi (q + 52)" by (simp add: r powi_52)
      with 2(1) show ?thesis by (intro exI [of _ "q + 52"]) simp
    next
      case False
      with 2(2) have "m = 2 ^ 53" by simp
      then have "d = 2 powi (q + 53)" by (simp add: r powi_53)
      with 2(1) show ?thesis by (intro exI [of _ "q + 53"]) simp
    qed
    then obtain j where j: "d = 2 powi j" "0 \<le> j" by blast
    have "d = of_int (2 ^ nat j)" unfolding j(1) by (rule powi_nonneg_int [OF j(2)])
    then have "printed2 d = d" by (simp only: printed2_of_int)
    then show ?thesis using idem dpos by simp
  next
    case 3
    have "(2::rat) powi (- 6) \<le> 2 powi q" using 3(1) by (rule powi_mono)
    then have t64: "1 / 64 \<le> t" by (simp add: t_def power_int_minus)
    have m1: "(2::rat) ^ 52 + 1 \<le> of_int m"
    proof -
      have "2 ^ 52 + 1 \<le> m" using 3(2) by simp
      then have "(of_int (2 ^ 52 + 1) :: rat) \<le> of_int m" by (simp only: of_int_le_iff)
      then show ?thesis by simp
    qed
    have m2: "(of_int m :: rat) \<le> 2 ^ 53 - 1"
    proof -
      have "m \<le> 2 ^ 53 - 1" using 3(3) by simp
      then have "(of_int m :: rat) \<le> of_int (2 ^ 53 - 1)" by (simp only: of_int_le_iff)
      then show ?thesis by simp
    qed
    define P where "P = 2 ^ 52 * t"
    define Q where "Q = 2 ^ 53 * t"
    have "(2 ^ 52 + 1) * t \<le> of_int m * t" using m1 t by (intro mult_right_mono) simp_all
    then have lo: "P + t \<le> d" by (simp add: r t_def P_def algebra_simps)
    have "of_int m * t \<le> (2 ^ 53 - 1) * t" using m2 t by (intro mult_right_mono) simp_all
    then have hi: "d \<le> Q - t" by (simp add: r t_def Q_def algebra_simps)
    define x where "x = printed2 d"
    have xe: "\<bar>x - d\<bar> \<le> 1 / 200" unfolding x_def by (rule printed2_err)
    have "P \<le> x" using lo xe t64 by linarith
    then have b1: "2 powi (q + 52) \<le> x" unfolding powi_52 P_def t_def .
    have "x < Q" using hi xe t64 by linarith
    then have b2: "x < 2 powi (q + 53)" unfolding powi_53 Q_def t_def .
    have "\<bar>x - d\<bar> / t \<le> (1 / 200) / (1 / 64)"
      using xe t64 t by (intro frac_le) simp_all
    moreover have "\<bar>x - d\<bar> / t = \<bar>x / t - of_int m\<bar>"
    proof -
      have dt: "d = of_int m * t" by (simp only: r t_def)
      have "x / t - of_int m = (x - d) / t" using t by (simp add: dt field_simps)
      then have "\<bar>x / t - of_int m\<bar> = \<bar>x - d\<bar> / \<bar>t\<bar>" by (simp only: abs_divide)
      then show ?thesis using t by simp
    qed
    ultimately have "\<bar>x / 2 powi q - of_int m\<bar> < 1 / 2" by (simp add: t_def)
    from round_pos_near [OF q b1 b2 this] have "round_pos x = d" by (simp add: r)
    moreover have "0 < x" using b1 powi_pos [of "q + 52"] by linarith
    ultimately show ?thesis by (simp add: x_def)
  qed
qed

text \<open>
  Numbers: the zeros, the results of a division, a division by one, and the integers
  below \<open>2\<^sup>5\<^sup>3\<close>.
\<close>

lemma printed2_0 [simp]: "printed2 0 = 0"
  using printed2_of_int [of 0] by simp

lemma double_of_mag_0 [simp]: "double_of_mag s 0 = zero_of s"
  by (simp add: double_of_mag_def round_pos_0)

lemma to_double_0 [simp]: "to_double 0 = Fin 0"
  by (simp add: to_double_def zero_of_def)

lemma double_valued_double_of_mag: "0 \<le> a \<Longrightarrow> double_valued (double_of_mag s a)"
  using round_pos_idem [of a] round_pos_nonneg [of a]
  by (simp add: double_of_mag_def Let_def zero_of_def inf_of_def is_double_def round_pos_0)

lemma double_valued_num_div: "double_valued (num_div x y)"
proof -
  have "0 \<le> magnitude x / magnitude y"
    by (cases x; cases y) simp_all
  then show ?thesis
    by (simp add: num_div_def Let_def zero_of_def inf_of_def is_double_def round_pos_0
        double_valued_double_of_mag)
qed

lemma num_div_one:
  assumes "double_valued c"
  shows "num_div c (Fin 1) = c"
proof (cases c)
  case (Fin d)
  with assms have d: "round_pos \<bar>d\<bar> = \<bar>d\<bar>" "\<bar>d\<bar> < 2 ^ 1024" by (simp_all add: is_double_def)
  show ?thesis
    using d by (simp add: Fin num_div_def double_of_mag_def Let_def zero_of_def)
qed (simp_all add: num_div_def zero_of_def inf_of_def)

lemma num_div_Fin:
  assumes "b \<noteq> 0" and "a \<noteq> 0 \<or> 0 < b"
  shows "num_div (Fin a) (Fin b) = to_double (a / b)"
proof -
  show ?thesis
  proof (cases "a = 0")
    case True
    with assms show ?thesis by (simp add: num_div_def zero_of_def)
  next
    case False
    then have "((a < 0) \<noteq> (b < 0)) = (a / b < 0)"
      using assms(1) by (auto simp: divide_less_0_iff)
    then show ?thesis
      using assms(1) False by (simp add: num_div_def to_double_def Let_def abs_divide)
  qed
qed

lemma num_div_cents: "num_div (Fin (of_int p)) (Fin 100) = to_double (of_int p / 100)"
  by (rule num_div_Fin) simp_all

lemma to_double_int:
  assumes "\<bar>n\<bar> < 2 ^ 53"
  shows "to_double (of_int n) = Fin (of_int n)"
proof (cases "n = 0")
  case True
  then show ?thesis by simp
next
  case False
  then have pos: "0 < \<bar>n\<bar>" by simp
  have r: "round_pos (of_int \<bar>n\<bar>) = of_int \<bar>n\<bar>"
    by (rule round_pos_int [OF pos assms])
  have "(of_int \<bar>n\<bar> :: rat) < 2 ^ 53" by (rule of_int_lt_pow [OF assms])
  moreover have "(2::rat) ^ 53 \<le> 2 ^ 1024" by (rule power_increasing) simp_all
  ultimately have "(of_int \<bar>n\<bar> :: rat) < 2 ^ 1024" by (rule less_le_trans)
  then show ?thesis
    using False r by (simp add: to_double_def double_of_mag_def Let_def flip: of_int_abs)
qed

lemma toFixed2_int:
  assumes "\<bar>n\<bar> < 2 ^ 53"
  shows "toFixed2 (Fin (of_int n)) = Fin (of_int n)"
proof -
  have "(of_int \<bar>n\<bar> :: rat) < 2 ^ 53" by (rule of_int_lt_pow [OF assms])
  moreover have "(2::rat) ^ 53 \<le> 10 ^ 21" by simp
  ultimately have small: "\<not> 10 ^ 21 \<le> \<bar>of_int n :: rat\<bar>" by simp
  have "toFixed2 (Fin (of_int n)) = double_of_mag (n < 0) (printed2 (of_int \<bar>n\<bar>))"
    using small by simp
  also have "\<dots> = to_double (of_int n)"
    by (simp only: printed2_of_int) (simp only: to_double_def of_int_abs of_int_less_0_iff)
  also have "\<dots> = Fin (of_int n)" by (rule to_double_int [OF assms])
  finally show ?thesis .
qed

text \<open>\<^verbatim>\<open>Number(x.toFixed(2))\<close> returns the double of a number of hundredths unchanged.\<close>

lemma toFixed2_cents: "toFixed2 (to_double (of_int p / 100)) = to_double (of_int p / 100)"
proof (cases "p = 0")
  case True
  then show ?thesis by (simp add: zero_of_def)
next
  case False
  define n where "n = \<bar>p\<bar>"
  define d where "d = round_pos (of_int n / 100)"
  have n: "0 < n" using False by (simp add: n_def)
  have a: "\<bar>of_int p / 100 :: rat\<bar> = of_int n / 100" by (simp add: n_def)
  from round_pos_cents [OF n] have c: "0 < printed2 d" "round_pos (printed2 d) = d"
    by (simp_all add: d_def)
  have "0 \<le> d" unfolding d_def by (rule round_pos_nonneg) (use n in simp)
  moreover have "d \<noteq> 0"
  proof
    assume "d = 0"
    then have "printed2 d = 0" by simp
    with c(1) show False by simp
  qed
  ultimately have dpos: "0 < d" by simp
  define s where "s = (of_int p / 100 < (0::rat))"
  have t: "to_double (of_int p / 100) = (if 2 ^ 1024 \<le> d then inf_of s else Fin (if s then - d else d))"
    using dpos unfolding to_double_def double_of_mag_def a s_def [symmetric] d_def [symmetric]
    by (simp add: Let_def)
  show ?thesis
  proof (cases "2 ^ 1024 \<le> d")
    case True
    then show ?thesis by (simp add: t inf_of_def)
  next
    case False
    have "double_of_mag s (printed2 d) = Fin (if s then - d else d)"
      using False dpos by (simp add: double_of_mag_def c(2))
    then show ?thesis using False dpos by (auto simp: t)
  qed
qed

text \<open>The certificate of a rounding, for \<open>to_double\<close>.\<close>

lemma to_double_near:
  assumes "0 < x" and "- 1074 \<le> q" and "2 powi (q + 52) \<le> x" and "x < 2 powi (q + 53)"
    and "\<bar>x / 2 powi q - of_int m\<bar> < 1 / 2" and "of_int m * 2 powi q = d" and "0 < d" and "d < 2 ^ 1024"
  shows "to_double x = Fin d"
  using assms(1,7,8) round_pos_near [OF assms(2-5)] assms(6)
  by (simp add: to_double_def double_of_mag_def)


text \<open>
  The rounding of the code and \<open>round2\<close> of the specification agree on doubles. From
  \<open>10\<^sup>2\<^sup>1\<close> on a double is an integer, which \<open>round2\<close> leaves as it is. The division by a
  positive number is \<open>quotient\<close>.
\<close>

lemma hundredths_printed2: "hundredths v = sgn v * printed2 \<bar>v\<bar>"
  by (simp add: hundredths_def printed2_def round_def)

lemma printed2_nonneg: "0 \<le> a \<Longrightarrow> 0 \<le> printed2 a"
  by (simp add: printed2_def)

lemma double_large_int:
  assumes "is_double v" and "10 ^ 21 \<le> \<bar>v\<bar>"
  shows "\<exists>k. \<bar>v\<bar> = of_int k"
proof -
  from assms(1) have r: "round_pos \<bar>v\<bar> = \<bar>v\<bar>" by (simp add: is_double_def)
  have "(2::rat) powi (- 1022) \<le> 2 powi 0" by (rule powi_mono) simp
  also have "\<dots> \<le> \<bar>v\<bar>" using assms(2) by simp
  finally have "2 powi (- 1022) \<le> \<bar>v\<bar>" .
  from round_pos_normal [OF this] obtain m q where
    m: "round_pos \<bar>v\<bar> = of_int m * 2 powi q" and b: "\<bar>v\<bar> < 2 powi (q + 53)"
    by blast
  have "(2::rat) powi 53 \<le> 10 ^ 21" by simp
  with assms(2) b have "(2::rat) powi 53 < 2 powi (q + 53)" by linarith
  then have "0 \<le> q" using powi_less_cancel [of 53 "q + 53"] by simp
  then have "(2::rat) powi q = of_int (2 ^ nat q)" by (rule powi_nonneg_int)
  then have "\<bar>v\<bar> = of_int (m * 2 ^ nat q)" using r m by simp
  then show ?thesis ..
qed

lemma toFixed2_round2:
  assumes "double_valued x"
  shows "toFixed2 x = round2 x"
proof (cases x)
  case (Fin v)
  show ?thesis
  proof (cases "10 ^ 21 \<le> \<bar>v\<bar>")
    case True
    from assms Fin have d: "is_double v" by simp
    from double_large_int [OF d True] obtain k where k: "\<bar>v\<bar> = of_int k" by blast
    have v0: "v \<noteq> 0" using True by auto
    have "printed2 \<bar>v\<bar> = \<bar>v\<bar>" unfolding k by (rule printed2_of_int)
    then have h: "hundredths v = v" by (simp add: hundredths_printed2 sgn_if)
    have "to_double v = Fin v"
      using d v0 by (auto simp: to_double_def double_of_mag_def is_double_def Let_def)
    then show ?thesis using True v0 by (simp add: Fin round2_def h)
  next
    case False
    show ?thesis
    proof (cases "printed2 \<bar>v\<bar> = 0")
      case True
      then show ?thesis using False by (simp add: Fin round2_def hundredths_printed2)
    next
      case nz: False
      define h where "h = printed2 \<bar>v\<bar>"
      have v0: "v \<noteq> 0" using nz by auto
      have pos: "0 < h" using nz printed2_nonneg [of "\<bar>v\<bar>"] by (simp add: h_def)
      have hv: "hundredths v = sgn v * h" by (simp add: hundredths_printed2 h_def)
      have "hundredths v < 0 \<longleftrightarrow> v < 0" "\<bar>hundredths v\<bar> = h" "hundredths v \<noteq> 0"
        using pos v0 unfolding hv by (simp_all add: sgn_if)
      then have "round2 (Fin v) = double_of_mag (v < 0) h"
        by (simp add: round2_def to_double_def)
      then show ?thesis using False by (simp add: Fin h_def)
    qed
  qed
qed (simp_all add: round2_def)

lemma num_div_quotient: "0 < r \<Longrightarrow> num_div x (Fin r) = quotient x r"
  by (cases x) (auto simp: num_div_def quotient_def to_double_def Let_def zero_of_def inf_of_def
      abs_divide divide_less_0_iff)

lemma double_valued_to_double: "double_valued (to_double x)"
  unfolding to_double_def by (rule double_valued_double_of_mag) simp

lemma toFixed2_pos:
  assumes "0 < x" and "x < 10 ^ 21"
  shows "toFixed2 (Fin x) = to_double (printed2 x)"
proof -
  have "0 \<le> printed2 x" using assms(1) by (intro printed2_nonneg) simp
  then show ?thesis using assms by (simp add: to_double_def)
qed

subsection \<open>Prices\<close>

text \<open>
  The price of an entry as the code computes it: the second amount from the unrounded
  first, which for an integer number of minor units is the rounded first.
\<close>

lemma price_of_item_num:
  assumes "get_prop item (js ''iPrice'') = Inr (num p)"
  shows "price_of_item rt (JNum y) item =
    Inr \<lparr>czk = to_double (of_int p / 100),
         eur = toFixed2 (num_div (to_double (of_int p / 100)) y)\<rparr>"
proof -
  have "js_div rt (js_or (num p) (num 0)) (num 100) = Inr (to_double (of_int p / 100))"
    using num_div_cents [of 0]
    by (cases "p = 0") (simp_all add: js_or_def js_div_def num_div_cents)
  then show ?thesis
    using assms by (simp add: price_of_item_def js_div_def toFixed2_cents)
qed

lemma price_rate_one:
  assumes "price_of_item rt (num 1) item = Inr p"
  shows "eur p = czk p"
proof -
  from assms obtain x y c e where
    c: "c = num_div x y"
    and e: "js_div rt (JNum c) (num 1) = Inr e" and p: "p = \<lparr>czk = toFixed2 c, eur = toFixed2 e\<rparr>"
    by (auto simp: price_of_item_def bindE_eq_Inr js_div_def)
  have "double_valued c" unfolding c by (rule double_valued_num_div)
  then have "num_div c (Fin 1) = c" by (rule num_div_one)
  with e have "e = c"
    by (simp add: js_div_def)
  with p show ?thesis by simp
qed

subsection \<open>Timestamps\<close>

lemma DayFromYear_step: "DayFromYear (Suc y) \<le> DayFromYear y + 367"
proof -
  define x where "x = int y"
  have "(x - 1968) div 4 \<le> (x - 1969 + 1 * 4) div 4"
    by (rule zdiv_mono1) simp_all
  also have "\<dots> = (x - 1969) div 4 + 1"
    by (simp only: div_mult_self1)
  finally have a: "(x - 1968) div 4 \<le> (x - 1969) div 4 + 1" .
  have b: "(x - 1901) div 100 \<le> (x - 1900) div 100"
    by (rule zdiv_mono1) simp_all
  have "(x - 1600) div 400 \<le> (x - 1601 + 1 * 400) div 400"
    by (rule zdiv_mono1) simp_all
  also have "\<dots> = (x - 1601) div 400 + 1"
    by (simp only: div_mult_self1)
  finally have c: "(x - 1600) div 400 \<le> (x - 1601) div 400 + 1" .
  have "365 * (x - 1969) + (x - 1968) div 4 - (x - 1900) div 100 + (x - 1600) div 400
      \<le> 365 * (x - 1970) + (x - 1969) div 4 - (x - 1901) div 100 + (x - 1601) div 400 + 367"
  proof -
    have "a1 \<le> a0 + 1 \<Longrightarrow> b0 \<le> b1 \<Longrightarrow> c1 \<le> c0 + 1 \<Longrightarrow>
        365 * (x - 1969) + a1 - b1 + c1 \<le> 365 * (x - 1970) + a0 - b0 + c0 + 367"
      for a0 a1 b0 b1 c0 c1 :: int
      by simp
    from this [OF a b c] show ?thesis .
  qed
  then show ?thesis
    by (simp add: DayFromYear_def x_def)
qed

lemma DayFromYear_estimate: "DayFromYear (1970 + k) \<le> 367 * int k"
proof (induction k)
  case 0
  then show ?case by (simp add: DayFromYear_def)
next
  case (Suc k)
  have "DayFromYear (1970 + Suc k) = DayFromYear (Suc (1970 + k))" by simp
  also have "\<dots> \<le> DayFromYear (1970 + k) + 367" by (rule DayFromYear_step)
  also have "\<dots> \<le> 367 * int k + 367" using Suc.IH by simp
  finally show ?case by simp
qed

lemma year_search_spec:
  "DayFromYear y \<le> int day \<Longrightarrow>
   DayFromYear (year_search day y) \<le> int day \<and> int day < DayFromYear (year_search day y + 1)"
proof (induction day y rule: year_search.induct)
  case (1 day y)
  show ?case
  proof (cases "DayFromYear (y + 1) \<le> int day")
    case True
    with "1.IH" show ?thesis
      by (subst (1 2) year_search.simps) simp
  next
    case False
    with "1.prems" show ?thesis
      by (subst (1 2) year_search.simps) simp
  qed
qed

text \<open>
  \<open>YearFromTime t\<close> is the year of ECMAScript: it starts on or before the day of \<open>t\<close>, and
  the next year starts after it (\<open>DayFromYear\<close> grows with the year).
\<close>

lemma YearFromTime_largest:
  "DayFromYear (YearFromTime t) \<le> int (t div msPerDay) \<and>
   int (t div msPerDay) < DayFromYear (YearFromTime t + 1)"
proof -
  have "367 * int (t div msPerDay div 367) \<le> int (t div msPerDay)"
    by (simp add: zdiv_int [symmetric] del: of_nat_div)
  with DayFromYear_estimate [of "t div msPerDay div 367"]
  have "DayFromYear (1970 + t div msPerDay div 367) \<le> int (t div msPerDay)"
    by simp
  then show ?thesis
    unfolding YearFromTime_def by (rule year_search_spec)
qed

lemma pad_2: "pad 2 n = [digit (n div 10 mod 10), digit (n mod 10)]"
  by (simp add: numeral_2_eq_2)

lemma pad_3:
  "pad 3 n = [digit (n div 10 div 10 mod 10), digit (n div 10 mod 10), digit (n mod 10)]"
  by (simp add: numeral_3_eq_3)

lemma pad_4:
  "pad 4 n = [digit (n div 10 div 10 div 10 mod 10), digit (n div 10 div 10 mod 10),
              digit (n div 10 mod 10), digit (n mod 10)]"
proof -
  have "pad 4 n = pad (Suc (Suc (Suc (Suc 0)))) n"
    by (simp only: numeral_eq_Suc pred_numeral_simps BitM.simps One_nat_def)
  then show ?thesis by simp
qed

lemma year_of_1700000000000: "YearFromTime 1700000000000 = 2023"
  by (simp add: YearFromTime_def msPerDay_def DayFromYear_def year_search.simps)

lemma day_of_1700000000000: "1700000000000 div msPerDay - nat (DayFromYear 2023) = 317"
  by (simp add: msPerDay_def DayFromYear_def)

lemma month_day_317: "month_day (month_lengths (InLeapYear 2023)) 0 317 = (10, 13)"
  by (simp add: month_lengths_def InLeapYear_def)

lemma ms_of_1700000000000: "1700000000000 mod msPerDay = 80000000"
  by (simp add: msPerDay_def)

lemma iso_of_1700000000000: "toISOString 1700000000000 = js ''2023-11-14T22:13:20.000Z''"
  unfolding toISOString_def Let_def year_of_1700000000000 day_of_1700000000000
    month_day_317 ms_of_1700000000000
  by (simp add: pad_2 pad_3 pad_4 js_def digit_def)

lemma digits_of_literal:
  "filter is_digit (js ''/Date(1700000000000)/'') = js ''1700000000000''"
  by (simp add: js_def is_digit_def)

lemma parseInt_literal: "parseInt_digits (js ''1700000000000'') = Some 1700000000000"
  by (simp add: parseInt_digits_def js_def)

subsection \<open>Line labels\<close>

lemma join_strings: "join rt (js '' '') (map JStr ss) = Inr (join_spaces ss)"
  by (induction ss rule: join_spaces.induct) simp_all

lemma filter_truthy_tokens:
  "list_all optional_token tokens \<Longrightarrow>
   filter truthy tokens = map JStr (present (map as_string tokens))"
proof (induction tokens)
  case Nil
  then show ?case by simp
next
  case (Cons t ts)
  then show ?case by (cases t) simp_all
qed

lemma is_space_white_space: "is_space c = white_space c"
  unfolding is_space_def white_space_def
  by (simp add: word_unat_eq_iff word_le_nat_alt) arith

lemma strip_left_dropWhile: "strip_left s = dropWhile is_space s"
  by (induction s) (simp_all add: is_space_white_space)

lemma strip_right_dropWhile: "strip_right s = rev (dropWhile is_space (rev s))"
proof (induction s)
  case Nil
  then show ?case by simp
next
  case (Cons c cs)
  show ?case
  proof (cases "\<forall>x\<in>set cs. is_space x")
    case True
    then have "dropWhile is_space (rev cs) = []" by simp
    with Cons True show ?thesis
      by (simp add: dropWhile_append is_space_white_space)
  next
    case False
    then have "dropWhile is_space (rev cs) \<noteq> []" by (simp add: dropWhile_eq_Nil_conv)
    with Cons False show ?thesis
      by (auto simp: dropWhile_append)
  qed
qed

lemma trim_strip: "trim s = strip_right (strip_left s)"
  by (simp add: trim_def strip_left_dropWhile strip_right_dropWhile)

lemma build_lineName_spec:
  "list_all optional_token tokens \<Longrightarrow>
   build_lineName rt tokens = Inr (lineName_spec (map as_string tokens))"
  by (simp add: build_lineName_def lineName_spec_def filter_truthy_tokens join_strings
      trim_strip)

lemma assemble_leg_lineName:
  assumes "assemble_leg rt leg = Inr out"
  shows "build_lineName rt (leg_tokens leg) = Inr (lineName out)"
  using assms
  by (auto simp: assemble_leg_def bindE_eq_Inr leg_tokens_def get_prop_opt_get)

subsection \<open>What a successful stage says about its parts\<close>

lemma search_and_price_Inr:
  assumes "search_and_price rt w q cls = (Inr (conns, prices), tr)"
  shows "\<exists>sessionID h age czkRate connIDs tr3 tr4.
    fetchCzkRate w tr3 = (Inr czkRate, tr4) \<and>
    connIDs_of conns = Inr connIDs \<and>
    getPrices rt w tr4 sessionID h connIDs cls age czkRate = (Inr prices, tr)"
  using assms
  by (simp add: search_and_price_def split: prod.splits sum.splits) blast

lemma getPrices_Inr:
  assumes "getPrices rt w tr4 sid h ids cls age rate = (Inr prices, tr)"
  shows "\<exists>res json d.
    tr = tr4 @ [POST price_url (price_body sid h ids cls age)] \<and>
    respond w tr4 (POST price_url (price_body sid h ids cls age)) = Response res \<and>
    res_json res = Inr json \<and> get_prop json (js ''d'') = Inr d \<and>
    array_map (\<lambda>item i. price_of_item rt rate item) (js_or d (JArr [])) = Inr prices"
  using assms
  by (auto simp: getPrices_def postJSON_def prices_of_def bindE_eq_Inr
      split: fetched.splits if_splits sum.splits)

lemma connIDs_of_Inr:
  assumes "connIDs_of conns = Inr ids"
  shows "\<exists>cs. conns = JArr cs \<and> ids = map (\<lambda>c. opt_get c (js ''iID'')) cs"
proof -
  from assms obtain cs where cs: "conns = JArr cs"
    unfolding connIDs_of_def by (rule array_map_eq_Inr_cases)
  with assms have a: "array_map (\<lambda>c i. get_prop c (js ''iID'')) (JArr cs) = Inr ids"
    by (simp add: connIDs_of_def)
  have "ids = map (\<lambda>c. opt_get c (js ''iID'')) cs"
  proof (rule nth_equalityI)
    show "length ids = length (map (\<lambda>c. opt_get c (js ''iID'')) cs)"
      using array_map_JArr(1) [OF a] by simp
  next
    fix i assume "i < length ids"
    then have i: "i < length cs"
      using array_map_JArr(1) [OF a] by simp
    from array_map_JArr(2) [OF a i] show "ids ! i = map (\<lambda>c. opt_get c (js ''iID'')) cs ! i"
      using i by (simp add: get_prop_opt_get)
  qed
  with cs show ?thesis by blast
qed

lemma assemble_conn_Inr:
  assumes "assemble_conn rt prices c i = Inr out"
  shows "i < length prices \<and> get_prop c (js ''iID'') = Inr (conn_id out) \<and>
    priceCzk out = czk (prices ! i) \<and> priceEur out = eur (prices ! i)"
  using assms
  by (auto simp: assemble_conn_def bindE_eq_Inr price_at_def split: if_splits)

lemma assemble_Inr:
  assumes "assemble rt (JArr cs) prices = Inr outs"
  shows "length outs = length cs" and "length cs \<le> length prices"
    and "i < length cs \<Longrightarrow>
      conn_id (outs ! i) = opt_get (cs ! i) (js ''iID'') \<and>
      priceCzk (outs ! i) = czk (prices ! i) \<and> priceEur (outs ! i) = eur (prices ! i)"
proof -
  from assms have a: "array_map (assemble_conn rt prices) (JArr cs) = Inr outs"
    by (simp add: assemble_def)
  show len: "length outs = length cs"
    by (rule array_map_JArr(1) [OF a])
  have each: "i < length prices \<and> conn_id (outs ! i) = opt_get (cs ! i) (js ''iID'') \<and>
      priceCzk (outs ! i) = czk (prices ! i) \<and> priceEur (outs ! i) = eur (prices ! i)"
    if "i < length cs" for i
    using assemble_conn_Inr [OF array_map_JArr(2) [OF a that]]
    by (simp add: get_prop_opt_get)
  show "length cs \<le> length prices"
  proof (rule ccontr)
    assume "\<not> length cs \<le> length prices"
    then have "length prices < length cs" by simp
    from each [OF this] show False by simp
  qed
  show "conn_id (outs ! i) = opt_get (cs ! i) (js ''iID'') \<and>
      priceCzk (outs ! i) = czk (prices ! i) \<and> priceEur (outs ! i) = eur (prices ! i)"
    if "i < length cs"
    using each [OF that] by simp
qed

lemma handler_after_search:
  assumes "ToNumber rt (js_or (q_class q) (num 2)) = Inr cls" and "\<not> missing q"
    and "search_and_price rt w q cls = (Inr (conns, prices), tr)"
  shows "handler rt w q =
    (case assemble rt conns prices of
       Inl e \<Rightarrow> (failed rt e, tr)
     | Inr out \<Rightarrow> (Reply 200 (Connections out), tr))"
  using assms by (simp add: handler_def)

lemma handler_200:
  assumes "fst (handler rt w q) = Reply 200 (Connections outs)"
  shows "\<exists>cls conns prices tr.
    search_and_price rt w q cls = (Inr (conns, prices), tr) \<and>
    assemble rt conns prices = Inr outs"
  using assms
  by (auto simp: handler_def failed_def split: sum.splits if_splits prod.splits)

lemma price_list_length:
  assumes "getPrices rt w tr4 sid h ids cls age rate = (Inr prices, tr)"
  shows "length (price_list_returned w tr) = length prices"
proof -
  from getPrices_Inr [OF assms] obtain res json d where
    tr: "tr = tr4 @ [POST price_url (price_body sid h ids cls age)]"
    and res: "respond w tr4 (POST price_url (price_body sid h ids cls age)) = Response res"
      "res_json res = Inr json" "get_prop json (js ''d'') = Inr d"
    and m: "array_map (\<lambda>item i. price_of_item rt rate item) (js_or d (JArr [])) = Inr prices"
    by blast
  from m obtain ps where ps: "js_or d (JArr []) = JArr ps"
    by (rule array_map_eq_Inr_cases)
  with m have len: "length prices = length ps"
    using array_map_JArr(1) by metis
  have "(case d of JArr ps' \<Rightarrow> ps' | _ \<Rightarrow> []) = ps"
    using ps by (cases d) (auto simp: js_or_def split: if_splits)
  then show ?thesis
    using tr res len by (simp add: price_list_returned_def get_prop_opt_get)
qed

lemma fetchCzkRate_no_CZK:
  assumes "no_CZK_field (respond w tr (GET rate_url))"
  shows "fst (fetchCzkRate w tr) = Inr (num 1)"
  using assms
  by (auto simp: no_CZK_field_def fetchCzkRate_def rate_of_def js_or_def
      split: fetched.splits sum.splits)

lemma falsy_query_value: "query_value v \<Longrightarrow> (\<not> truthy v) = absent_or_empty v"
  by (cases v) (simp_all add: absent_or_empty_def)

text \<open>A \<^verbatim>\<open>class\<close> parameter that is absent or a string converts to a number.\<close>

lemma class_converts:
  "v = JUndefined \<or> (\<exists>s. v = JStr s) \<Longrightarrow> \<exists>n. ToNumber rt (js_or v (num 2)) = Inr n"
  by (auto simp: js_or_def)

section \<open>The sample run\<close>

lemma url_distinct [simp]:
  "station_url \<noteq> session_url" "station_url \<noteq> journey_url" "station_url \<noteq> price_url"
  "session_url \<noteq> station_url" "session_url \<noteq> journey_url" "session_url \<noteq> price_url"
  "journey_url \<noteq> station_url" "journey_url \<noteq> session_url" "journey_url \<noteq> price_url"
  "price_url \<noteq> station_url" "price_url \<noteq> session_url" "price_url \<noteq> journey_url"
  by (simp_all add: station_url_def session_url_def journey_url_def price_url_def)

lemma respond_sample:
  "respond (sample_world s r p) h (GET url) = json_reply r"
  "respond (sample_world s r p) h (POST station_url body) =
     json_reply (JObj [(js ''d'', JArr [JObj [(js ''oItem'',
        JObj [(js ''iListID'', num 1), (js ''sName'', opt_get body (js ''sMask''))])]])])"
  "respond (sample_world s r p) h (POST session_url body) = json_reply s"
  "respond (sample_world s r p) h (POST journey_url body) =
     json_reply (JObj [(js ''d'', JObj [(js ''iHandle'', num 7),
        (js ''oConnInfo'', JObj [(js ''aoConnections'', JArr sample_connections)])])])"
  "respond (sample_world s r p) h (POST price_url body) = json_reply p"
  by (simp_all add: sample_world_def)

lemma postJSON_json_reply:
  "respond w tr (POST url body) = json_reply j \<Longrightarrow>
   postJSON w tr url body = (Inr j, tr @ [POST url body])"
  by (simp add: postJSON_def json_reply_def ok_def)

lemma sample_station:
  "searchStation rt (sample_world s r p) tr m =
     (Inr \<lparr>st_id = num 1, st_name = m\<rparr>, tr @ [POST station_url (station_body m)])"
  by (simp add: searchStation_def postJSON_json_reply [OF respond_sample(2)] station_of_def
      js_or_def station_body_def)

lemma sample_both:
  "both_stations rt (sample_world s r p) tr a b =
     (Inr (\<lparr>st_id = num 1, st_name = a\<rparr>, \<lparr>st_id = num 1, st_name = b\<rparr>),
      tr @ [POST station_url (station_body a), POST station_url (station_body b)])"
  by (simp add: both_stations_def sample_station)

lemma sample_createSession:
  "createSession (sample_world s r p) tr =
     (bindE (get_prop s (js ''d'')) (\<lambda>d. Inr (opt_get d (js ''sSessionID''))),
      tr @ [POST session_url session_body])"
  by (simp add: createSession_def postJSON_json_reply [OF respond_sample(3)])

lemma sample_searchJourneys:
  "searchJourneys rt (sample_world s r p) tr sid a b d c g =
     (Inr \<lparr>handle = num 7, connections = JArr sample_connections\<rparr>,
      tr @ [POST journey_url (journey_body rt sid a b d c g)])"
  by (simp add: searchJourneys_def postJSON_json_reply [OF respond_sample(4)]
      search_result_of_def js_or_def)

lemma sample_fetchCzkRate:
  "fetchCzkRate (sample_world s r p) tr = (rate_of r, tr @ [GET rate_url])"
  by (simp add: fetchCzkRate_def respond_sample json_reply_def)

lemma sample_connIDs: "connIDs_of (JArr sample_connections) = Inr [num 101, num 102]"
  by (simp add: connIDs_of_def sample_connections_def enumerate_eq_zip)

lemma sample_getPrices:
  "getPrices rt (sample_world s r p) tr sid h ids c g rate =
     (prices_of rt rate p, tr @ [POST price_url (price_body sid h ids c g)])"
  by (simp add: getPrices_def postJSON_json_reply [OF respond_sample(5)])

lemma to_double_samples [simp]:
  "to_double 1 = Fin 1" "to_double 2 = Fin 2" "to_double 4 = Fin 4" "to_double 25 = Fin 25"
  "to_double 159 = Fin 159" "to_double 1700000000000 = Fin 1700000000000"
  using to_double_int [of 1] to_double_int [of 2] to_double_int [of 4] to_double_int [of 25]
    to_double_int [of 159] to_double_int [of 1700000000000]
  by simp_all

lemma sample_runtime_simps [simp]:
  "StringToNumber sample_runtime (js ''2'') = Fin 2"
  "StringToNumber sample_runtime (js ''25'') = Fin 25"
  "StringToNumber sample_runtime (js ''1700000000000'') = Fin 1700000000000"
  by (simp_all add: sample_runtime_def parseInt_digits_def js_def is_digit_def)

lemma sample_search_and_price:
  assumes "get_prop s (js ''d'') = Inr d" and "rate_of r = Inr rate"
    and "prices_of sample_runtime rate p = Inr prices"
  shows "search_and_price sample_runtime (sample_world s r p) sample_query (Fin 2) =
    (Inr (JArr sample_connections, prices), sample_trace (opt_get d (js ''sSessionID'')))"
  using assms
  by (simp add: search_and_price_def sample_query_def sample_both sample_createSession
      sample_searchJourneys sample_fetchCzkRate sample_connIDs sample_getPrices
      js_or_def sample_trace_def)

lemma sample_cls: "ToNumber sample_runtime (js_or (q_class sample_query) (num 2)) = Inr (Fin 2)"
  by (simp add: sample_query_def js_or_def)

lemma sample_not_missing: "\<not> missing sample_query"
  by (simp add: missing_def sample_query_def)

lemma sample_session_d:
  "get_prop sample_session (js ''d'') = Inr (JObj [(js ''sSessionID'', JStr (js ''S1''))])"
  by (simp add: sample_session_def)

lemma sample_rate_of: "rate_of sample_rate = Inr (num 25)"
  by (simp add: rate_of_def sample_rate_def js_or_def)

lemma rate_of_without_CZK: "rate_of rate_without_CZK = Inr (num 1)"
  by (simp add: rate_of_def rate_without_CZK_def js_or_def)

text \<open>
  The doubles of the sample prices: 6.36, 99.9 and 99.9 / 25, then 2.01 and 2.01 / 2, each
  with the integer \<open>m\<close> and the exponent \<open>q\<close> of its form \<open>m \<cdot> 2\<^sup>q\<close>.
\<close>

lemma double_636: "to_double (159 / 25) = Fin (7160723407519089 / 1125899906842624)"
  by (rule to_double_near [where q = "- 50" and m = 7160723407519089])
     (simp_all add: power_int_minus)

lemma double_999: "to_double (999 / 10) = Fin (3514918771674317 / 35184372088832)"
  by (rule to_double_near [where q = "- 46" and m = 7029837543348634])
     (simp_all add: power_int_minus)

lemma double_999_25: "to_double (3514918771674317 / 879609302220800) = Fin (2249548013871563 / 562949953421312)"
  by (rule to_double_near [where q = "- 51" and m = 8998192055486252])
     (simp_all add: power_int_minus)

lemma double_201: "to_double (201 / 100) = Fin (1131529406376837 / 562949953421312)"
  by (rule to_double_near [where q = "- 51" and m = 4526117625507348])
     (simp_all add: power_int_minus)

lemma double_201_half: "to_double (1131529406376837 / 1125899906842624) = Fin (1131529406376837 / 1125899906842624)"
  by (rule to_double_near [where q = "- 52" and m = 4526117625507348])
     (simp_all add: power_int_minus)

lemma printed2_636: "printed2 (7160723407519089 / 1125899906842624) = 159 / 25"
proof -
  have "\<lfloor>(7160723407519089 / 1125899906842624 :: rat) * 100 + 1 / 2\<rfloor> = 636"
    by (rule floor_unique) simp_all
  then show ?thesis by (simp add: printed2_def)
qed

lemma printed2_999_25: "printed2 (2249548013871563 / 562949953421312) = 4"
proof -
  have "\<lfloor>(2249548013871563 / 562949953421312 :: rat) * 100 + 1 / 2\<rfloor> = 400"
    by (rule floor_unique) simp_all
  then show ?thesis by (simp add: printed2_def)
qed

lemma printed2_201_half: "printed2 (1131529406376837 / 1125899906842624) = 1"
proof -
  have "\<lfloor>(1131529406376837 / 1125899906842624 :: rat) * 100 + 1 / 2\<rfloor> = 100"
    by (rule floor_unique) simp_all
  then show ?thesis by (simp add: printed2_def)
qed

lemma hundredths_201_half: "hundredths (1131529406376837 / 1125899906842624) = 1"
proof -
  have "\<lfloor>(1131529406376837 / 1125899906842624 :: rat) * 100 + 1 / 2\<rfloor> = 100"
    by (rule floor_unique) simp_all
  then show ?thesis by (simp add: hundredths_def round_def)
qed

lemma sample_price_1:
  "price_of_item rt (num 25) (JObj [(js ''iPrice'', num 15900)])
     = Inr \<lparr>czk = Fin 159, eur = Fin (7160723407519089 / 1125899906842624)\<rparr>"
proof -
  have "price_of_item rt (JNum (Fin 25)) (JObj [(js ''iPrice'', num 15900)]) =
    Inr \<lparr>czk = to_double (of_int 15900 / 100),
         eur = toFixed2 (num_div (to_double (of_int 15900 / 100)) (Fin 25))\<rparr>"
    by (rule price_of_item_num) simp
  moreover have "num_div (Fin 159) (Fin 25) = Fin (7160723407519089 / 1125899906842624)"
    by (simp add: num_div_Fin double_636)
  moreover have "toFixed2 (Fin (7160723407519089 / 1125899906842624)) = Fin (7160723407519089 / 1125899906842624)"
    using toFixed2_pos [of "7160723407519089 / 1125899906842624"] by (simp add: printed2_636 double_636)
  ultimately show ?thesis
    by (simp add: num_def del: toFixed2.simps)
qed

lemma sample_price_2:
  "price_of_item rt (num 25) (JObj [(js ''iPrice'', num 9990)])
     = Inr \<lparr>czk = Fin (3514918771674317 / 35184372088832), eur = Fin 4\<rparr>"
proof -
  have "price_of_item rt (JNum (Fin 25)) (JObj [(js ''iPrice'', num 9990)]) =
    Inr \<lparr>czk = to_double (of_int 9990 / 100),
         eur = toFixed2 (num_div (to_double (of_int 9990 / 100)) (Fin 25))\<rparr>"
    by (rule price_of_item_num) simp
  moreover have "num_div (Fin (3514918771674317 / 35184372088832)) (Fin 25) = Fin (2249548013871563 / 562949953421312)"
    by (simp add: num_div_Fin double_999_25)
  moreover have "toFixed2 (Fin (2249548013871563 / 562949953421312)) = Fin 4"
    using toFixed2_pos [of "2249548013871563 / 562949953421312"] by (simp add: printed2_999_25)
  ultimately show ?thesis
    by (simp add: num_def double_999 del: toFixed2.simps)
qed

lemma price_of_item_unconverted:
  assumes "get_prop item (js ''iPrice'') = Inr (num p)"
  shows "price_of_item rt (num 1) item =
    Inr \<lparr>czk = to_double (of_int p / 100), eur = to_double (of_int p / 100)\<rparr>"
  using price_of_item_num [OF assms, of rt "Fin 1"]
    num_div_one [OF double_valued_to_double, of "of_int p / 100"] toFixed2_cents [of p]
  by (simp add: num_def del: toFixed2.simps)

lemma unconverted_price_1:
  "price_of_item rt (num 1) (JObj [(js ''iPrice'', num 15900)])
     = Inr \<lparr>czk = Fin 159, eur = Fin 159\<rparr>"
  using price_of_item_unconverted [of "JObj [(js ''iPrice'', num 15900)]" 15900 rt]
  by simp

lemma unconverted_price_2:
  "price_of_item rt (num 1) (JObj [(js ''iPrice'', num 9990)])
     = Inr \<lparr>czk = Fin (3514918771674317 / 35184372088832), eur = Fin (3514918771674317 / 35184372088832)\<rparr>"
  using price_of_item_unconverted [of "JObj [(js ''iPrice'', num 9990)]" 9990 rt]
  by (simp add: double_999)

lemma sample_prices_of: "prices_of rt (num 25) sample_prices = Inr sample_price_list"
  by (simp add: prices_of_def sample_prices_def js_or_def enumerate_eq_zip sample_price_1
      sample_price_2 sample_price_list_def)

lemma short_prices_of:
  "prices_of rt (num 25) short_prices = Inr [\<lparr>czk = Fin 159, eur = Fin (7160723407519089 / 1125899906842624)\<rparr>]"
  by (simp add: prices_of_def short_prices_def js_or_def enumerate_eq_zip sample_price_1)

lemma unconverted_prices_of: "prices_of rt (num 1) sample_prices = Inr unconverted_price_list"
  by (simp add: prices_of_def sample_prices_def js_or_def enumerate_eq_zip
      unconverted_price_1 unconverted_price_2 unconverted_price_list_def)

lemma last_sample_trace:
  "last (sample_trace sid)
     = POST price_url (price_body sid (num 7) [num 101, num 102] (Fin 2) (Fin 25))"
  by (simp add: sample_trace_def)

lemma sample_leg_assembled: "assemble_leg rt sample_leg = Inr sample_leg_out"
proof -
  have d: "Date_toISOString (parseInt_digits (filter is_digit (js ''/Date(1700000000000)/'')))
      = Inr (js ''2023-11-14T22:13:20.000Z'')"
    by (simp add: digits_of_literal parseInt_literal Date_toISOString_def iso_of_1700000000000)
  have l: "build_lineName rt [JStr (js ''EC''), JStr (js ''123''), JStr [], JNull]
      = Inr (js ''EC 123'')"
    by (simp add: build_lineName_def trim_def is_space_def js_def)
  show ?thesis
    by (simp add: assemble_leg_def sample_leg_def d l sample_leg_out_def)
qed

lemma padded_leg_assembled: "assemble_leg rt padded_leg = Inr padded_leg_out"
proof -
  have d: "Date_toISOString (parseInt_digits (filter is_digit (js ''/Date(1700000000000)/'')))
      = Inr (js ''2023-11-14T22:13:20.000Z'')"
    by (simp add: digits_of_literal parseInt_literal Date_toISOString_def iso_of_1700000000000)
  have l: "build_lineName rt
        [JStr (160 # js ''EC''), JStr (js ''123''), JUndefined, JStr (js ''7'' @ [9, 32])]
      = Inr (js ''EC 123 7'')"
    by (simp add: build_lineName_def trim_def is_space_def js_def)
  show ?thesis
    by (simp add: assemble_leg_def padded_leg_def d l padded_leg_out_def)
qed

lemma sample_assemble:
  "assemble rt (JArr sample_connections) sample_price_list = Inr sample_output"
  by (simp add: assemble_def sample_connections_def enumerate_eq_zip assemble_conn_def
      price_at_def sample_price_list_def js_sub_def sample_leg_assembled sample_output_def)

lemma unconverted_assemble:
  "assemble rt (JArr sample_connections) unconverted_price_list = Inr unconverted_output"
  by (simp add: assemble_def sample_connections_def enumerate_eq_zip assemble_conn_def
      price_at_def unconverted_price_list_def js_sub_def sample_leg_assembled
      unconverted_output_def)

section \<open>The claims\<close>

text \<open>
  C1. For a request that reaches assembly, the identifiers sent to the price lookup
  (\<^verbatim>\<open>aiConnID\<close> of the last call) are the \<^verbatim>\<open>iID\<close> of the searched connections in their
  order, and when the reply is 200 its record at position \<open>i\<close> carries the identifier of
  connection \<open>i\<close> and the two amounts of price \<open>i\<close>: the pairing is by position, and no
  identifier is compared.
\<close>

theorem positional_pairing:
  assumes "ToNumber rt (js_or (q_class q) (num 2)) = Inr cls" and "\<not> missing q"
    and "search_and_price rt w q cls = (Inr (conns, prices), tr)"
  shows "\<exists>cs body.
    conns = JArr cs \<and> last tr = POST price_url body \<and>
    get_prop body (js ''aiConnID'') = Inr (JArr (map (\<lambda>c. opt_get c (js ''iID'')) cs)) \<and>
    (\<forall>outs. fst (handler rt w q) = Reply 200 (Connections outs) \<longrightarrow>
       length outs = length cs \<and> length cs \<le> length prices \<and>
       (\<forall>i<length cs.
          conn_id (outs ! i) = opt_get (cs ! i) (js ''iID'') \<and>
          priceCzk (outs ! i) = czk (prices ! i) \<and> priceEur (outs ! i) = eur (prices ! i)))"
proof -
  from search_and_price_Inr [OF assms(3)] obtain sessionID h age czkRate connIDs tr3 tr4
    where ids: "connIDs_of conns = Inr connIDs"
      and gp: "getPrices rt w tr4 sessionID h connIDs cls age czkRate = (Inr prices, tr)"
    by blast
  from connIDs_of_Inr [OF ids] obtain cs
    where cs: "conns = JArr cs" "connIDs = map (\<lambda>c. opt_get c (js ''iID'')) cs"
    by blast
  from getPrices_Inr [OF gp]
  have tr: "tr = tr4 @ [POST price_url (price_body sessionID h connIDs cls age)]"
    by blast
  have sent: "get_prop (price_body sessionID h connIDs cls age) (js ''aiConnID'')
      = Inr (JArr (map (\<lambda>c. opt_get c (js ''iID'')) cs))"
    by (simp add: price_body_def cs(2))
  have paired: "length outs = length cs \<and> length cs \<le> length prices \<and>
       (\<forall>i<length cs.
          conn_id (outs ! i) = opt_get (cs ! i) (js ''iID'') \<and>
          priceCzk (outs ! i) = czk (prices ! i) \<and> priceEur (outs ! i) = eur (prices ! i))"
    if "fst (handler rt w q) = Reply 200 (Connections outs)" for outs
  proof -
    from that have "assemble rt (JArr cs) prices = Inr outs"
      unfolding handler_after_search [OF assms] cs(1)
      by (cases "assemble rt (JArr cs) prices") (simp_all add: failed_def)
    from assemble_Inr [OF this] show ?thesis by blast
  qed
  from cs(1) tr sent paired show ?thesis
    by (intro exI [of _ cs] exI [of _ "price_body sessionID h connIDs cls age"]) simp
qed

theorem positional_pairing_witness:
  "ToNumber sample_runtime (js_or (q_class sample_query) (num 2)) = Inr (Fin 2)
   \<and> \<not> missing sample_query
   \<and> search_and_price sample_runtime (sample_world sample_session sample_rate sample_prices)
        sample_query (Fin 2)
      = (Inr (JArr sample_connections, sample_price_list), sample_trace (JStr (js ''S1'')))
   \<and> handler sample_runtime (sample_world sample_session sample_rate sample_prices) sample_query
      = (Reply 200 (Connections sample_output), sample_trace (JStr (js ''S1'')))
   \<and> (\<exists>body. last (sample_trace (JStr (js ''S1''))) = POST price_url body
         \<and> get_prop body (js ''aiConnID'') = Inr (JArr [num 101, num 102]))
   \<and> map conn_id sample_output = [num 101, num 102]
   \<and> map priceCzk sample_output = map czk sample_price_list
   \<and> map priceEur sample_output = map eur sample_price_list"
proof -
  let ?w = "sample_world sample_session sample_rate sample_prices"
  have s: "search_and_price sample_runtime ?w sample_query (Fin 2)
      = (Inr (JArr sample_connections, sample_price_list), sample_trace (JStr (js ''S1'')))"
    using sample_search_and_price [OF sample_session_d sample_rate_of sample_prices_of]
    by simp
  have h: "handler sample_runtime ?w sample_query
      = (Reply 200 (Connections sample_output), sample_trace (JStr (js ''S1'')))"
    by (simp add: handler_after_search [OF sample_cls sample_not_missing s] sample_assemble)
  from positional_pairing [OF sample_cls sample_not_missing s] obtain cs body where
    "JArr sample_connections = JArr cs"
    "last (sample_trace (JStr (js ''S1''))) = POST price_url body"
    "get_prop body (js ''aiConnID'') = Inr (JArr (map (\<lambda>c. opt_get c (js ''iID'')) cs))"
    by blast
  then have "\<exists>body. last (sample_trace (JStr (js ''S1''))) = POST price_url body
         \<and> get_prop body (js ''aiConnID'') = Inr (JArr [num 101, num 102])"
    by (auto simp: sample_connections_def)
  then show ?thesis
    using s h sample_cls sample_not_missing
    by (simp add: sample_output_def sample_price_list_def)
qed

text \<open>
  C2, as amended. When the session call is answered with success and a JSON body other
  than \<open>null\<close> in which the token is absent, \<^verbatim>\<open>createSession\<close> returns \<open>undefined\<close>
  and throws nothing: the code has no error for a missing token.
\<close>

theorem createSession_token_absent:
  assumes "respond w tr (POST session_url session_body) = Response res" and "ok res"
    and "res_json res = Inr json" and "get_prop json (js ''d'') = Inr d"
    and "opt_get d (js ''sSessionID'') = JUndefined"
  shows "createSession w tr = (Inr JUndefined, tr @ [POST session_url session_body])"
  using assms by (simp add: createSession_def postJSON_def)

theorem createSession_token_absent_witness:
  "(\<exists>res. respond (sample_world session_without_token sample_rate sample_prices) []
        (POST session_url session_body) = Response res
      \<and> ok res \<and> res_json res = Inr session_without_token)
   \<and> get_prop session_without_token (js ''d'') = Inr (JObj [])
   \<and> opt_get (JObj []) (js ''sSessionID'') = JUndefined
   \<and> createSession (sample_world session_without_token sample_rate sample_prices) []
       = (Inr JUndefined, [] @ [POST session_url session_body])"
proof -
  let ?w = "sample_world session_without_token sample_rate sample_prices"
  let ?res = "\<lparr>res_status = 200, res_statusText = js ''OK'', res_text = [],
    res_json = Inr session_without_token\<rparr>"
  have r: "respond ?w [] (POST session_url session_body) = Response ?res"
    by (simp add: respond_sample json_reply_def)
  have k: "ok ?res" by (simp add: ok_def)
  have j: "res_json ?res = Inr session_without_token" by simp
  have d: "get_prop session_without_token (js ''d'') = Inr (JObj [])"
    by (simp add: session_without_token_def)
  have t: "opt_get (JObj []) (js ''sSessionID'') = JUndefined" by simp
  from createSession_token_absent [OF r k j d t] r k j d t show ?thesis
    by blast
qed

text \<open>
  C2 as stated fails: the session call of this world is answered \<^verbatim>\<open>{"d": {}}\<close>, with no
  token, and \<^verbatim>\<open>createSession\<close> returns \<open>undefined\<close>; the request goes on and is
  answered 200.
\<close>

theorem createSession_token_absent_counterexample:
  "respond (sample_world session_without_token sample_rate sample_prices) []
       (POST session_url session_body) = json_reply session_without_token
   \<and> opt_get (opt_get session_without_token (js ''d'')) (js ''sSessionID'') = JUndefined
   \<and> createSession (sample_world session_without_token sample_rate sample_prices) []
       = (Inr JUndefined, [POST session_url session_body])
   \<and> fst (handler sample_runtime (sample_world session_without_token sample_rate sample_prices)
        sample_query) = Reply 200 (Connections sample_output)"
proof -
  let ?w = "sample_world session_without_token sample_rate sample_prices"
  have d: "get_prop session_without_token (js ''d'') = Inr (JObj [])"
    by (simp add: session_without_token_def)
  have s: "search_and_price sample_runtime ?w sample_query (Fin 2)
      = (Inr (JArr sample_connections, sample_price_list), sample_trace JUndefined)"
    using sample_search_and_price [OF d sample_rate_of sample_prices_of]
    by simp
  have "fst (handler sample_runtime ?w sample_query) = Reply 200 (Connections sample_output)"
    by (simp add: handler_after_search [OF sample_cls sample_not_missing s] sample_assemble)
  then show ?thesis
    by (simp add: respond_sample sample_createSession session_without_token_def)
qed

text \<open>
  C3, as amended. For a request whose \<^verbatim>\<open>class\<close> converts to a number: when any of
  \<^verbatim>\<open>from\<close>, \<^verbatim>\<open>to\<close>, \<^verbatim>\<open>dep\<close> is absent or empty, the reply is 400 with the message
  \<^verbatim>\<open>Missing from, to, or dep\<close> and no remote call is made; when all three are present
  and not empty, the reply is not a 400.
\<close>

theorem missing_parameter_reply:
  assumes "ToNumber rt (js_or (q_class q) (num 2)) = Inr cls"
    and "query_value (q_from q)" and "query_value (q_to q)" and "query_value (q_dep q)"
  shows "(absent_or_empty (q_from q) \<or> absent_or_empty (q_to q) \<or> absent_or_empty (q_dep q)
          \<longrightarrow> handler rt w q = (Reply 400 (ErrorBody (js ''Missing from, to, or dep'')), []))
    \<and> (\<not> (absent_or_empty (q_from q) \<or> absent_or_empty (q_to q) \<or> absent_or_empty (q_dep q))
          \<longrightarrow> (\<forall>b. fst (handler rt w q) \<noteq> Reply 400 b))"
proof -
  have m: "missing q =
      (absent_or_empty (q_from q) \<or> absent_or_empty (q_to q) \<or> absent_or_empty (q_dep q))"
    using assms(2-4) by (simp add: missing_def falsy_query_value)
  show ?thesis
    unfolding m [symmetric] using assms(1)
    by (auto simp: handler_def failed_def split: prod.splits sum.splits)
qed

theorem missing_parameter_reply_witness:
  "ToNumber sample_runtime (js_or (q_class empty_from_query) (num 2)) = Inr (Fin 2)
   \<and> query_value (q_from empty_from_query) \<and> query_value (q_to empty_from_query)
   \<and> query_value (q_dep empty_from_query)
   \<and> absent_or_empty (q_from empty_from_query)
   \<and> handler sample_runtime (sample_world sample_session sample_rate sample_prices)
        empty_from_query
      = (Reply 400 (ErrorBody (js ''Missing from, to, or dep'')), [])
   \<and> ToNumber sample_runtime (js_or (q_class sample_query) (num 2)) = Inr (Fin 2)
   \<and> query_value (q_from sample_query) \<and> query_value (q_to sample_query)
   \<and> query_value (q_dep sample_query)
   \<and> (\<forall>b. fst (handler sample_runtime
          (sample_world sample_session sample_rate sample_prices) sample_query) \<noteq> Reply 400 b)"
proof -
  let ?w = "sample_world sample_session sample_rate sample_prices"
  have c: "ToNumber sample_runtime (js_or (q_class empty_from_query) (num 2)) = Inr (Fin 2)"
    by (simp add: empty_from_query_def sample_query_def js_or_def)
  have v: "query_value (q_from empty_from_query)" "query_value (q_to empty_from_query)"
    "query_value (q_dep empty_from_query)"
    by (simp_all add: empty_from_query_def sample_query_def)
  have a: "absent_or_empty (q_from empty_from_query)"
    by (simp add: empty_from_query_def absent_or_empty_def)
  have v': "query_value (q_from sample_query)" "query_value (q_to sample_query)"
    "query_value (q_dep sample_query)"
    by (simp_all add: sample_query_def)
  have a': "\<not> (absent_or_empty (q_from sample_query) \<or> absent_or_empty (q_to sample_query)
      \<or> absent_or_empty (q_dep sample_query))"
    by (simp add: sample_query_def absent_or_empty_def)
  from missing_parameter_reply [OF c v, of ?w] a
  have "handler sample_runtime ?w empty_from_query
      = (Reply 400 (ErrorBody (js ''Missing from, to, or dep'')), [])"
    by blast
  moreover from missing_parameter_reply [OF sample_cls v', of ?w] a'
  have "\<forall>b. fst (handler sample_runtime ?w sample_query) \<noteq> Reply 400 b"
    by blast
  ultimately show ?thesis
    using c v a v' sample_cls by simp
qed

text \<open>
  C3 as stated fails in its converse: in this request all three parameters are present,
  \<^verbatim>\<open>from\<close> with the empty string as its value, and the reply is the 400.
\<close>

theorem empty_parameter_counterexample:
  "q_from empty_from_query \<noteq> JUndefined \<and> q_to empty_from_query \<noteq> JUndefined
   \<and> q_dep empty_from_query \<noteq> JUndefined
   \<and> handler sample_runtime (sample_world sample_session sample_rate sample_prices)
        empty_from_query
      = (Reply 400 (ErrorBody (js ''Missing from, to, or dep'')), [])"
  by (simp add: empty_from_query_def sample_query_def handler_def js_or_def missing_def)

text \<open>
  C4. For an integer price \<open>p\<close> in minor units and a positive rate \<open>r\<close>, the entry's
  source amount is \<open>round2 (p / 100)\<close> and its target amount is
  \<open>round2 (sourceAmount / r)\<close>, as the specification defines them (\<open>sourceAmount\<close>,
  \<open>targetAmount\<close>): the amounts are doubles, \<open>/\<close> gives the double nearest to the exact
  quotient, and \<open>round2\<close> the double nearest to the nearest hundredth of the exact value
  of its argument. The code divides the unrounded \<open>p / 100\<close> by the rate; rounding the
  double of \<open>p / 100\<close> to two decimals gives that double back, so the two agree.
\<close>

theorem price_conversion:
  assumes "0 < r" and "get_prop item (js ''iPrice'') = Inr (num p)"
  shows "price_of_item rt (JNum (Fin r)) item =
      Inr \<lparr>czk = sourceAmount p, eur = targetAmount p r\<rparr>
    \<and> sourceAmount p = to_double (of_int p / 100)"
proof -
  let ?c = "to_double (of_int p / 100)"
  have "toFixed2 ?c = round2 ?c"
    by (rule toFixed2_round2 [OF double_valued_to_double])
  then have s: "sourceAmount p = ?c"
    by (simp add: sourceAmount_def toFixed2_cents)
  have "double_valued (num_div ?c (Fin r))"
    by (rule double_valued_num_div)
  then have "toFixed2 (num_div ?c (Fin r)) = round2 (num_div ?c (Fin r))"
    by (rule toFixed2_round2)
  also have "\<dots> = targetAmount p r"
    by (simp add: targetAmount_def s num_div_quotient [OF assms(1)])
  finally have t: "toFixed2 (num_div ?c (Fin r)) = targetAmount p r" .
  from price_of_item_num [OF assms(2), of rt "Fin r"] s t show ?thesis
    by simp
qed

text \<open>
  The instance is a tie: 201 minor units at the rate 2. The source amount is the double
  nearest to 2.01, its half is below 1.005, and the target amount is 1.
\<close>

theorem price_conversion_witness:
  "(0::rat) < 2
   \<and> get_prop (JObj [(js ''iPrice'', num 201)]) (js ''iPrice'') = Inr (num 201)
   \<and> price_of_item sample_runtime (JNum (Fin 2)) (JObj [(js ''iPrice'', num 201)])
       = Inr \<lparr>czk = Fin (1131529406376837 / 562949953421312), eur = Fin 1\<rparr>
   \<and> sourceAmount 201 = Fin (1131529406376837 / 562949953421312)
   \<and> targetAmount 201 2 = Fin 1"
proof -
  have r: "(0::rat) < 2" by simp
  have g: "get_prop (JObj [(js ''iPrice'', num 201)]) (js ''iPrice'') = Inr (num 201)"
    by simp
  from price_conversion [OF r g, of sample_runtime]
  have p: "price_of_item sample_runtime (JNum (Fin 2)) (JObj [(js ''iPrice'', num 201)])
      = Inr \<lparr>czk = sourceAmount 201, eur = targetAmount 201 2\<rparr>"
    and "sourceAmount 201 = to_double (of_int 201 / 100)"
    by simp_all
  then have s: "sourceAmount 201 = Fin (1131529406376837 / 562949953421312)"
    by (simp add: double_201)
  have t: "targetAmount 201 2 = Fin 1"
    by (simp add: targetAmount_def s quotient_def double_201_half round2_def
        hundredths_201_half)
  from r g p s t show ?thesis
    by simp
qed

text \<open>
  C5. When every answer to the rate lookup is a JSON body without a \<^verbatim>\<open>CZK\<close> rate, the
  rate that \<^verbatim>\<open>fetchCzkRate\<close> returns is 1, and in every record of a 200 reply
  \<^verbatim>\<open>priceEur\<close> equals \<^verbatim>\<open>priceCzk\<close>.
\<close>

theorem rate_fallback:
  assumes "\<forall>h. no_CZK_field (respond w h (GET rate_url))"
  shows "(\<forall>tr. fst (fetchCzkRate w tr) = Inr (num 1))
    \<and> (\<forall>outs. fst (handler rt w q) = Reply 200 (Connections outs)
          \<longrightarrow> (\<forall>out\<in>set outs. priceEur out = priceCzk out))"
proof (intro conjI allI impI ballI)
  fix tr
  show "fst (fetchCzkRate w tr) = Inr (num 1)"
    using assms by (simp add: fetchCzkRate_no_CZK)
next
  fix outs out
  assume ok: "fst (handler rt w q) = Reply 200 (Connections outs)" and out: "out \<in> set outs"
  from handler_200 [OF ok] obtain cls conns prices tr where
    s: "search_and_price rt w q cls = (Inr (conns, prices), tr)"
    and a: "assemble rt conns prices = Inr outs"
    by blast
  from search_and_price_Inr [OF s] obtain sessionID h age czkRate connIDs tr3 tr4 where
    f: "fetchCzkRate w tr3 = (Inr czkRate, tr4)"
    and ids: "connIDs_of conns = Inr connIDs"
    and gp: "getPrices rt w tr4 sessionID h connIDs cls age czkRate = (Inr prices, tr)"
    by blast
  from f assms have rate: "czkRate = num 1"
    using fetchCzkRate_no_CZK [of w tr3] by simp
  from connIDs_of_Inr [OF ids] obtain cs where cs: "conns = JArr cs"
    by blast
  from getPrices_Inr [OF gp] obtain d where
    m: "array_map (\<lambda>item i. price_of_item rt (num 1) item) (js_or d (JArr [])) = Inr prices"
    unfolding rate by blast
  from m obtain ps where ps: "js_or d (JArr []) = JArr ps"
    by (rule array_map_eq_Inr_cases)
  have same: "eur (prices ! i) = czk (prices ! i)" if "i < length prices" for i
  proof -
    from m ps
    have m': "array_map (\<lambda>item i. price_of_item rt (num 1) item) (JArr ps) = Inr prices"
      by simp
    from that array_map_JArr(1) [OF m'] have "i < length ps" by simp
    from array_map_JArr(2) [OF m' this] show ?thesis
      by (rule price_rate_one)
  qed
  from out obtain i where i: "i < length outs" "out = outs ! i"
    by (auto simp: in_set_conv_nth)
  from a cs have a': "assemble rt (JArr cs) prices = Inr outs"
    by simp
  from i assemble_Inr(1) [OF a'] have ic: "i < length cs" by simp
  with assemble_Inr(2) [OF a'] have ip: "i < length prices" by simp
  from assemble_Inr(3) [OF a' ic] same [OF ip] i(2) show "priceEur out = priceCzk out"
    by simp
qed

theorem rate_fallback_witness:
  "(\<forall>h. no_CZK_field
          (respond (sample_world sample_session rate_without_CZK sample_prices) h (GET rate_url)))
   \<and> fst (fetchCzkRate (sample_world sample_session rate_without_CZK sample_prices) [])
       = Inr (num 1)
   \<and> fst (handler sample_runtime (sample_world sample_session rate_without_CZK sample_prices)
        sample_query) = Reply 200 (Connections unconverted_output)
   \<and> list_all (\<lambda>out. priceEur out = priceCzk out) unconverted_output"
proof -
  let ?w = "sample_world sample_session rate_without_CZK sample_prices"
  have n: "\<forall>h. no_CZK_field (respond ?w h (GET rate_url))"
    by (simp add: no_CZK_field_def respond_sample json_reply_def rate_without_CZK_def)
  have s: "search_and_price sample_runtime ?w sample_query (Fin 2)
      = (Inr (JArr sample_connections, unconverted_price_list), sample_trace (JStr (js ''S1'')))"
    using sample_search_and_price [OF sample_session_d rate_of_without_CZK
        unconverted_prices_of]
    by simp
  have h: "fst (handler sample_runtime ?w sample_query)
      = Reply 200 (Connections unconverted_output)"
    by (simp add: handler_after_search [OF sample_cls sample_not_missing s] unconverted_assemble)
  from rate_fallback [OF n, of sample_runtime sample_query] h
  have "fst (fetchCzkRate ?w []) = Inr (num 1)"
    and "\<forall>out\<in>set unconverted_output. priceEur out = priceCzk out"
    by blast+
  with n h show ?thesis
    by (simp add: list_all_iff)
qed

text \<open>
  C6. A connection whose \<^verbatim>\<open>aoTrains\<close> is an array of \<open>k\<close> legs is assembled into a
  record with \<^verbatim>\<open>transfers\<close> equal to \<open>k - 1\<close> (0 for a single leg) and with \<open>k\<close> legs.
\<close>

theorem transfers_is_legs_minus_one:
  assumes "assemble_conn rt prices c i = Inr out"
    and "get_prop c (js ''aoTrains'') = Inr (JArr ls)"
  shows "transfers out = Fin (of_nat (length ls) - 1) \<and> length (legs out) = length ls"
proof -
  from assms obtain t lo where
    t: "js_sub rt (JNum (Fin (of_nat (length ls)))) (num 1) = Inr t"
    and lo: "array_map (\<lambda>leg j. assemble_leg rt leg) (JArr ls) = Inr lo"
    and out: "transfers out = t" "legs out = lo"
    by (auto simp: assemble_conn_def bindE_eq_Inr)
  from t have "t = Fin (of_nat (length ls) - 1)"
    by (simp add: js_sub_def)
  moreover from lo have "length lo = length ls"
    by (rule array_map_JArr)
  ultimately show ?thesis
    using out by simp
qed

theorem transfers_is_legs_minus_one_witness:
  "assemble_conn sample_runtime sample_price_list
       (JObj [(js ''iID'', num 101), (js ''aoTrains'', JArr [sample_leg])]) 0
     = Inr \<lparr>conn_id = num 101, priceCzk = Fin 159, priceEur = Fin (7160723407519089 / 1125899906842624),
            transfers = Fin 0, legs = [sample_leg_out]\<rparr>
   \<and> get_prop (JObj [(js ''iID'', num 101), (js ''aoTrains'', JArr [sample_leg])])
        (js ''aoTrains'') = Inr (JArr [sample_leg])
   \<and> transfers \<lparr>conn_id = num 101, priceCzk = Fin 159, priceEur = Fin (7160723407519089 / 1125899906842624),
            transfers = Fin 0, legs = [sample_leg_out]\<rparr>
       = Fin (of_nat (length [sample_leg]) - 1)"
proof -
  let ?c = "JObj [(js ''iID'', num 101), (js ''aoTrains'', JArr [sample_leg])]"
  let ?out = "\<lparr>conn_id = num 101, priceCzk = Fin 159, priceEur = Fin (7160723407519089 / 1125899906842624),
            transfers = Fin 0, legs = [sample_leg_out]\<rparr>"
  have a: "assemble_conn sample_runtime sample_price_list ?c 0 = Inr ?out"
    by (simp add: assemble_conn_def price_at_def sample_price_list_def js_sub_def
        sample_leg_assembled enumerate_eq_zip)
  have g: "get_prop ?c (js ''aoTrains'') = Inr (JArr [sample_leg])"
    by simp
  from transfers_is_legs_minus_one [OF a g] a g show ?thesis
    by blast
qed

text \<open>
  C7. For a leg whose four tokens (\<^verbatim>\<open>sType\<close>, \<^verbatim>\<open>sNum1\<close>, \<^verbatim>\<open>sNum2\<close>, \<^verbatim>\<open>sNum3\<close>) are
  strings or absent, the \<^verbatim>\<open>lineName\<close> of the assembled leg is what the specification
  describes (\<open>lineName_spec\<close>): the empty and absent tokens dropped, the rest joined by
  single spaces, and the white space stripped from the left and from the right of the
  result. The tokens \<^verbatim>\<open>["EC", "123", "", null]\<close> give \<^verbatim>\<open>"EC 123"\<close>.
\<close>

theorem lineName_construction:
  "(assemble_leg rt leg = Inr out \<and> list_all optional_token (leg_tokens leg)
      \<longrightarrow> lineName out = lineName_spec (map as_string (leg_tokens leg)))
   \<and> build_lineName rt [JStr (js ''EC''), JStr (js ''123''), JStr [], JNull]
       = Inr (js ''EC 123'')"
proof (intro conjI impI)
  assume a: "assemble_leg rt leg = Inr out \<and> list_all optional_token (leg_tokens leg)"
  then have "build_lineName rt (leg_tokens leg) = Inr (lineName out)"
    by (simp add: assemble_leg_lineName)
  with a show "lineName out = lineName_spec (map as_string (leg_tokens leg))"
    by (simp add: build_lineName_spec)
next
  have "build_lineName rt [JStr (js ''EC''), JStr (js ''123''), JStr [], JNull]
      = Inr (lineName_spec [Some (js ''EC''), Some (js ''123''), Some [], None])"
    by (simp add: build_lineName_spec)
  also have "lineName_spec [Some (js ''EC''), Some (js ''123''), Some [], None]
      = js ''EC 123''"
    by (simp add: lineName_spec_def js_def white_space_def)
  finally show "build_lineName rt [JStr (js ''EC''), JStr (js ''123''), JStr [], JNull]
      = Inr (js ''EC 123'')" .
qed

text \<open>
  The instance is a leg with a no-break space before its type, a tab and a space after
  its last number, and one token absent.
\<close>

theorem lineName_construction_witness:
  "assemble_leg sample_runtime padded_leg = Inr padded_leg_out
   \<and> list_all optional_token (leg_tokens padded_leg)
   \<and> map as_string (leg_tokens padded_leg)
       = [Some (160 # js ''EC''), Some (js ''123''), None, Some (js ''7'' @ [9, 32])]
   \<and> lineName padded_leg_out
       = lineName_spec [Some (160 # js ''EC''), Some (js ''123''), None, Some (js ''7'' @ [9, 32])]
   \<and> lineName_spec [Some (160 # js ''EC''), Some (js ''123''), None, Some (js ''7'' @ [9, 32])]
       = js ''EC 123 7''"
proof -
  have t: "leg_tokens padded_leg
      = [JStr (160 # js ''EC''), JStr (js ''123''), JUndefined, JStr (js ''7'' @ [9, 32])]"
    by (simp add: leg_tokens_def padded_leg_def)
  have o: "list_all optional_token (leg_tokens padded_leg)"
    by (simp add: t)
  have m: "map as_string (leg_tokens padded_leg)
      = [Some (160 # js ''EC''), Some (js ''123''), None, Some (js ''7'' @ [9, 32])]"
    by (simp add: t)
  from lineName_construction [of sample_runtime padded_leg padded_leg_out]
  have "lineName padded_leg_out = lineName_spec (map as_string (leg_tokens padded_leg))"
    using padded_leg_assembled o by blast
  with o m padded_leg_assembled show ?thesis
    by (simp add: padded_leg_out_def)
qed

text \<open>
  C8. The timestamp \<^verbatim>\<open>/Date(1700000000000)/\<close> of the remote format parses to the ISO-8601
  instant of that many milliseconds after the epoch, 22:13:20 UTC on 14 November 2023.
\<close>

theorem parseDate_epoch_literal:
  "parseDate (JStr (js ''/Date(1700000000000)/'')) = Inr (js ''2023-11-14T22:13:20.000Z'')"
  by (simp add: digits_of_literal parseInt_literal Date_toISOString_def iso_of_1700000000000)

text \<open>
  C9. A price entry whose \<^verbatim>\<open>iPrice\<close> is absent or zero (or false in any other way)
  makes the price lookup throw nothing: with a rate that is a number, both of its
  amounts are 0.
\<close>

theorem absent_price_is_zero:
  assumes "get_prop item (js ''iPrice'') = Inr v" and "\<not> truthy v"
    and "truthy (JNum r)"
  shows "price_of_item rt (JNum r) item = Inr \<lparr>czk = Fin 0, eur = Fin 0\<rparr>"
proof -
  have "js_div rt (js_or v (num 0)) (num 100) = Inr (Fin 0)"
    using assms(2) by (simp add: js_or_def js_div_def num_div_def zero_of_def)
  moreover have "\<exists>e. js_div rt (JNum (Fin 0)) (JNum r) = Inr e \<and> toFixed2 e = Fin 0"
    using assms(3) by (cases r) (simp_all add: js_div_def num_div_def zero_of_def)
  ultimately show ?thesis
    using assms(1) by (auto simp: price_of_item_def zero_of_def)
qed

theorem absent_price_is_zero_witness:
  "get_prop (JObj []) (js ''iPrice'') = Inr JUndefined \<and> \<not> truthy JUndefined
   \<and> truthy (JNum (Fin 25))
   \<and> price_of_item sample_runtime (JNum (Fin 25)) (JObj [])
       = Inr \<lparr>czk = Fin 0, eur = Fin 0\<rparr>"
proof -
  have g: "get_prop (JObj []) (js ''iPrice'') = Inr JUndefined" by simp
  have f: "\<not> truthy JUndefined" by simp
  have t: "truthy (JNum (Fin 25))" by simp
  from absent_price_is_zero [OF g f t, of sample_runtime] g show ?thesis
    by simp
qed

text \<open>
  C10. When a request reaches assembly and the price list returned by the remote has
  fewer entries than the connection list, the handler replies 500 with the message of
  the error thrown, and no array of records.
\<close>

theorem short_price_list_fails:
  assumes "ToNumber rt (js_or (q_class q) (num 2)) = Inr cls" and "\<not> missing q"
    and "search_and_price rt w q cls = (Inr (JArr cs, prices), tr)"
    and "length (price_list_returned w tr) < length cs"
  shows "\<exists>e. handler rt w q = (Reply 500 (ErrorBody (message rt e)), tr)"
proof -
  from search_and_price_Inr [OF assms(3)] obtain sessionID h age czkRate connIDs tr4
    where "getPrices rt w tr4 sessionID h connIDs cls age czkRate = (Inr prices, tr)"
    by blast
  then have "length (price_list_returned w tr) = length prices"
    by (rule price_list_length)
  with assms(4) have short: "length prices < length cs"
    by simp
  have "\<exists>e. assemble rt (JArr cs) prices = Inl e"
  proof (cases "assemble rt (JArr cs) prices")
    case (Inl e)
    then show ?thesis by blast
  next
    case (Inr outs)
    from assemble_Inr(2) [OF Inr] short show ?thesis by simp
  qed
  then show ?thesis
    by (auto simp: handler_after_search [OF assms(1-3)] failed_def)
qed

theorem short_price_list_fails_witness:
  "ToNumber sample_runtime (js_or (q_class sample_query) (num 2)) = Inr (Fin 2)
   \<and> \<not> missing sample_query
   \<and> search_and_price sample_runtime (sample_world sample_session sample_rate short_prices)
        sample_query (Fin 2)
      = (Inr (JArr sample_connections, [\<lparr>czk = Fin 159, eur = Fin (7160723407519089 / 1125899906842624)\<rparr>]),
         sample_trace (JStr (js ''S1'')))
   \<and> length (price_list_returned (sample_world sample_session sample_rate short_prices)
        (sample_trace (JStr (js ''S1'')))) < length sample_connections
   \<and> (\<exists>e. handler sample_runtime (sample_world sample_session sample_rate short_prices)
          sample_query
        = (Reply 500 (ErrorBody (message sample_runtime e)), sample_trace (JStr (js ''S1''))))"
proof -
  let ?w = "sample_world sample_session sample_rate short_prices"
  have s: "search_and_price sample_runtime ?w sample_query (Fin 2)
      = (Inr (JArr sample_connections, [\<lparr>czk = Fin 159, eur = Fin (7160723407519089 / 1125899906842624)\<rparr>]),
         sample_trace (JStr (js ''S1'')))"
    using sample_search_and_price [OF sample_session_d sample_rate_of short_prices_of]
    by simp
  have l: "length (price_list_returned ?w (sample_trace (JStr (js ''S1''))))
      < length sample_connections"
    by (simp add: price_list_returned_def last_sample_trace respond_sample json_reply_def
        short_prices_def sample_connections_def)
  from short_price_list_fails [OF sample_cls sample_not_missing s l] s l sample_cls
    sample_not_missing
  show ?thesis by simp
qed

end
